theory Spec2Isabelle
  imports Main
begin

section \<open>JavaScript values\<close>

text \<open>
  The program is JavaScript: a property of an object holds any value, and the code
  decides by truthiness (\<^verbatim>\<open>a || b\<close>, \<^verbatim>\<open>!!a\<close>, \<^verbatim>\<open>if (a)\<close>) and by strict
  equality. The values that occur are \<^verbatim>\<open>undefined\<close>, \<^verbatim>\<open>null\<close>, booleans, numbers
  (record keys and the flags 0 and 1: integers) and strings.
\<close>

datatype jsval = JUndefined | JNull | JBool bool | JNum int | JStr string

fun truthy :: "jsval \<Rightarrow> bool" where
  "truthy JUndefined = False"
| "truthy JNull = False"
| "truthy (JBool b) = b"
| "truthy (JNum n) = (n \<noteq> 0)"
| "truthy (JStr s) = (s \<noteq> [])"

text \<open>\<^verbatim>\<open>a || b\<close>\<close>

definition js_or :: "jsval \<Rightarrow> jsval \<Rightarrow> jsval" where
  "js_or a b = (if truthy a then a else b)"

text \<open>\<^verbatim>\<open>x ? 1 : 0\<close>\<close>

definition flag :: "jsval \<Rightarrow> jsval" where
  "flag x = JNum (if truthy x then 1 else 0)"

text \<open>
  An argument object (\<^verbatim>\<open>data\<close>, \<^verbatim>\<open>fields\<close>, \<^verbatim>\<open>filters\<close>, \<^verbatim>\<open>updates\<close>): reading a
  property that is not there gives \<^verbatim>\<open>undefined\<close>.
\<close>

type_synonym jsobj = "string \<Rightarrow> jsval"

definition no_props :: jsobj where
  "no_props = (\<lambda>k. JUndefined)"

section \<open>Records of the two object stores\<close>

text \<open>
  A stored task has the properties \<^verbatim>\<open>dbCreateTask\<close> writes. The key \<^verbatim>\<open>id\<close> comes from
  the store's key generator and the two timestamps from \<^verbatim>\<open>localNow()\<close>; every other
  property holds what the caller passed. A timestamp \<^verbatim>\<open>YYYY-MM-DD HH:MM:SS\<close> is
  represented by a number, and \<^verbatim>\<open>localeCompare\<close> on two timestamps by the order of
  the numbers.
\<close>

record task =
  t_id :: nat
  title :: jsval
  description :: jsval
  completed :: jsval
  due_date :: jsval
  source :: jsval
  source_id :: jsval
  source_url :: jsval
  connection_id :: jsval
  created_at :: nat
  updated_at :: nat

record connection =
  c_id :: nat
  c_type :: jsval
  c_name :: string
  token :: string
  database_id :: string
  enabled :: jsval
  last_synced_at :: "nat option"
  c_created_at :: nat

text \<open>The objects \<^verbatim>\<open>notionCollectTodos\<close> pushes: one per to-do block.\<close>

record remote_item =
  r_source_id :: string
  r_title :: string
  r_completed :: bool
  r_description :: string
  r_source_url :: string

section \<open>The world: object stores, clock, remote calls, console\<close>

datatype call =
    UpdateTodoChecked string jsval bool
  | UpdateTodoText string jsval jsval
  | FetchTodos string string

datatype reply = Rejected string | Resolved "remote_item list"

datatype logline = ConsoleLog "jsval list" | ConsoleError "jsval list"

text \<open>
  What the program cannot decide is the environment: the reading of the wall clock at
  each call of \<^verbatim>\<open>localNow()\<close>, and the outcome of each call of the Notion client
  (\<^verbatim>\<open>notionUpdateTodoChecked\<close>, \<^verbatim>\<open>notionUpdateTodoText\<close>, \<^verbatim>\<open>notionFetchTodos\<close>), which
  may depend on all calls made before. A client call either rejects with the message of
  the \<^verbatim>\<open>Error\<close> that \<^verbatim>\<open>notionFetch\<close> throws, or resolves; the HTTP requests behind one
  call (pagination, recursion into child blocks) are not unfolded. Requests to IndexedDB
  succeed. One asynchronous function runs from its call to its return without another
  one interleaving.
\<close>

record env =
  clock :: "nat \<Rightarrow> nat"
  notion :: "call list \<Rightarrow> call \<Rightarrow> reply"

record world =
  tasks :: "task list"
  task_key :: nat
  conns :: "connection list"
  conn_key :: nat
  ticks :: nat
  calls :: "call list"
  console :: "logline list"

definition localNow :: "env \<Rightarrow> world \<Rightarrow> nat \<times> world" where
  "localNow e w = (clock e (ticks w), w\<lparr>ticks := Suc (ticks w)\<rparr>)"

section \<open>Tasks CRUD\<close>

definition localeCompare :: "nat \<Rightarrow> nat \<Rightarrow> int" where
  "localeCompare x y = (if x < y then - 1 else if y < x then 1 else 0)"

text \<open>The comparator of \<^verbatim>\<open>tasks.sort\<close> in \<^verbatim>\<open>dbGetAllTasks\<close>.\<close>

definition compare_tasks :: "task \<Rightarrow> task \<Rightarrow> int" where
  "compare_tasks a b =
     (if completed a \<noteq> completed b then (if truthy (completed a) then 1 else - 1)
      else localeCompare (created_at b) (created_at a))"

text \<open>\<^verbatim>\<open>Array.prototype.sort\<close> is stable: an insertion sort from the right.\<close>

fun insert_sorted :: "('a \<Rightarrow> 'a \<Rightarrow> int) \<Rightarrow> 'a \<Rightarrow> 'a list \<Rightarrow> 'a list" where
  "insert_sorted cmp x [] = [x]"
| "insert_sorted cmp x (y # ys) =
     (if cmp x y \<le> 0 then x # y # ys else y # insert_sorted cmp x ys)"

definition js_sort :: "('a \<Rightarrow> 'a \<Rightarrow> int) \<Rightarrow> 'a list \<Rightarrow> 'a list" where
  "js_sort cmp xs = foldr (insert_sorted cmp) xs []"

definition dbGetAllTasks :: "jsobj \<Rightarrow> world \<Rightarrow> task list" where
  "dbGetAllTasks filters w =
     (let all = tasks w;
          ts1 = (if truthy (filters ''source'')
                 then filter (\<lambda>t. source t = filters ''source'') all else all);
          ts2 = (if filters ''completed'' \<noteq> JUndefined
                 then filter (\<lambda>t. JBool (truthy (completed t)) = filters ''completed'') ts1
                 else ts1)
      in js_sort compare_tasks ts2)"

definition dbGetTask :: "nat \<Rightarrow> world \<Rightarrow> task option" where
  "dbGetTask i w = find (\<lambda>t. t_id t = i) (tasks w)"

definition dbCreateTask :: "env \<Rightarrow> jsobj \<Rightarrow> world \<Rightarrow> task \<times> world" where
  "dbCreateTask e data w =
     (case localNow e w of (now, w1) \<Rightarrow>
        let task = \<lparr> t_id = Suc (task_key w1),
                     title = js_or (data ''title'') (JStr ''''),
                     description = js_or (data ''description'') (JStr ''''),
                     completed = flag (data ''completed''),
                     due_date = js_or (data ''due_date'') JNull,
                     source = js_or (data ''source'') (JStr ''local''),
                     source_id = js_or (data ''source_id'') JNull,
                     source_url = js_or (data ''source_url'') JNull,
                     connection_id = js_or (data ''connection_id'') JNull,
                     created_at = now,
                     updated_at = now \<rparr>
        in (task, w1\<lparr>tasks := tasks w1 @ [task], task_key := Suc (task_key w1)\<rparr>))"

text \<open>\<^verbatim>\<open>task[key] = value\<close>, for the properties that hold a caller's value.\<close>

definition set_prop :: "string \<Rightarrow> jsval \<Rightarrow> task \<Rightarrow> task" where
  "set_prop key v t =
     (if key = ''title'' then t\<lparr>title := v\<rparr>
      else if key = ''description'' then t\<lparr>description := v\<rparr>
      else if key = ''completed'' then t\<lparr>completed := v\<rparr>
      else if key = ''due_date'' then t\<lparr>due_date := v\<rparr>
      else if key = ''source'' then t\<lparr>source := v\<rparr>
      else if key = ''source_id'' then t\<lparr>source_id := v\<rparr>
      else if key = ''source_url'' then t\<lparr>source_url := v\<rparr>
      else if key = ''connection_id'' then t\<lparr>connection_id := v\<rparr>
      else t)"

definition allowed :: "string list" where
  "allowed = [''title'', ''description'', ''completed'', ''due_date'', ''source_url'']"

text \<open>The body of the loop over \<^verbatim>\<open>allowed\<close> in \<^verbatim>\<open>dbUpdateTask\<close>.\<close>

definition update_field :: "jsobj \<Rightarrow> string \<Rightarrow> task \<Rightarrow> task" where
  "update_field flds key t =
     (if flds key \<noteq> JUndefined
      then set_prop key (if key = ''completed'' then flag (flds key) else flds key) t
      else t)"

text \<open>
  \<^verbatim>\<open>put\<close> replaces the record stored under the key of the given one; the record was
  read by \<^verbatim>\<open>get\<close> just before, so the key is there.
\<close>

definition idb_put :: "task \<Rightarrow> task list \<Rightarrow> task list" where
  "idb_put t ts = map (\<lambda>u. if t_id u = t_id t then t else u) ts"

definition dbUpdateTask :: "env \<Rightarrow> nat \<Rightarrow> jsobj \<Rightarrow> world \<Rightarrow> task option \<times> world" where
  "dbUpdateTask e i flds w =
     (case dbGetTask i w of
        None \<Rightarrow> (None, w)
      | Some t \<Rightarrow>
          (case localNow e w of (now, w1) \<Rightarrow>
             let t' = (fold (update_field flds) allowed t)\<lparr>updated_at := now\<rparr>
             in (Some t', w1\<lparr>tasks := idb_put t' (tasks w1)\<rparr>)))"

definition dbDeleteTask :: "nat \<Rightarrow> world \<Rightarrow> task option \<times> world" where
  "dbDeleteTask i w =
     (case dbGetTask i w of
        None \<Rightarrow> (None, w)
      | Some t \<Rightarrow> (Some t, w\<lparr>tasks := filter (\<lambda>u. t_id u \<noteq> i) (tasks w)\<rparr>))"

section \<open>Connections CRUD\<close>

definition dbGetAllConnections :: "world \<Rightarrow> connection list" where
  "dbGetAllConnections w = conns w"

text \<open>
  \<^verbatim>\<open>dbCreateConnection(data)\<close>; its one caller passes the type \<^verbatim>\<open>'notion'\<close>, a name
  and the configuration \<^verbatim>\<open>{ token, database_id }\<close>.
\<close>

definition dbCreateConnection ::
  "env \<Rightarrow> jsval \<Rightarrow> string \<Rightarrow> string \<Rightarrow> string \<Rightarrow> world \<Rightarrow> connection \<times> world" where
  "dbCreateConnection e ty nm tok dbid w =
     (case localNow e w of (now, w1) \<Rightarrow>
        let conn = \<lparr> c_id = Suc (conn_key w1), c_type = ty, c_name = nm, token = tok,
                     database_id = dbid, enabled = JNum 1, last_synced_at = None,
                     c_created_at = now \<rparr>
        in (conn, w1\<lparr>conns := conns w1 @ [conn], conn_key := Suc (conn_key w1)\<rparr>))"

text \<open>
  \<^verbatim>\<open>dbUpdateConnection(id, fields)\<close> assigns every entry of \<^verbatim>\<open>fields\<close> to the stored
  record; the effect of these assignments on the record is the argument \<open>assign\<close>.
\<close>

definition dbUpdateConnection ::
  "nat \<Rightarrow> (connection \<Rightarrow> connection) \<Rightarrow> world \<Rightarrow> connection option \<times> world" where
  "dbUpdateConnection i assign w =
     (case find (\<lambda>c. c_id c = i) (conns w) of
        None \<Rightarrow> (None, w)
      | Some c \<Rightarrow>
          (Some (assign c),
           w\<lparr>conns := map (\<lambda>d. if c_id d = c_id (assign c) then assign c else d) (conns w)\<rparr>))"

definition dbDeleteConnection :: "nat \<Rightarrow> world \<Rightarrow> connection option \<times> world" where
  "dbDeleteConnection i w =
     (case find (\<lambda>c. c_id c = i) (conns w) of
        None \<Rightarrow> (None, w)
      | Some c \<Rightarrow> (Some c, w\<lparr>conns := filter (\<lambda>d. c_id d \<noteq> i) (conns w)\<rparr>))"

section \<open>Notion client\<close>

text \<open>
  A call is recorded in the trace \<open>calls\<close> and answered by the environment. An
  asynchronous function that can reject returns \<open>Inl\<close> of the error's message.
\<close>

definition notion_call :: "env \<Rightarrow> call \<Rightarrow> world \<Rightarrow> reply \<times> world" where
  "notion_call e c w = (notion e (calls w) c, w\<lparr>calls := calls w @ [c]\<rparr>)"

definition notionUpdateTodoChecked ::
  "env \<Rightarrow> string \<Rightarrow> jsval \<Rightarrow> bool \<Rightarrow> world \<Rightarrow> (string + unit) \<times> world" where
  "notionUpdateTodoChecked e tok blockId checked w =
     (case notion_call e (UpdateTodoChecked tok blockId checked) w of
        (Rejected msg, w') \<Rightarrow> (Inl msg, w')
      | (Resolved _, w') \<Rightarrow> (Inr (), w'))"

definition notionUpdateTodoText ::
  "env \<Rightarrow> string \<Rightarrow> jsval \<Rightarrow> jsval \<Rightarrow> world \<Rightarrow> (string + unit) \<times> world" where
  "notionUpdateTodoText e tok blockId txt w =
     (case notion_call e (UpdateTodoText tok blockId txt) w of
        (Rejected msg, w') \<Rightarrow> (Inl msg, w')
      | (Resolved _, w') \<Rightarrow> (Inr (), w'))"

definition notionFetchTodos ::
  "env \<Rightarrow> string \<Rightarrow> string \<Rightarrow> world \<Rightarrow> (string + remote_item list) \<times> world" where
  "notionFetchTodos e tok databaseId w =
     (case notion_call e (FetchTodos tok databaseId) w of
        (Rejected msg, w') \<Rightarrow> (Inl msg, w')
      | (Resolved todos, w') \<Rightarrow> (Inr todos, w'))"

section \<open>Sync\<close>

text \<open>
  Body of the first loop of \<^verbatim>\<open>syncConnection\<close>: the push is inside
  \<^verbatim>\<open>try { ... } catch (_) {}\<close>, so a rejection is dropped.
\<close>

definition push_task :: "env \<Rightarrow> connection \<Rightarrow> task \<Rightarrow> world \<Rightarrow> world" where
  "push_task e conn t w =
     (if truthy (source_id t) \<and> connection_id t = JNum (int (c_id conn))
      then (case notionUpdateTodoChecked e (token conn) (source_id t) (truthy (completed t)) w of
              (Inl _, w') \<Rightarrow> w'
            | (Inr _, w') \<Rightarrow> w')
      else w)"

text \<open>Body of the loop that fills the \<^verbatim>\<open>Map\<close> \<^verbatim>\<open>localBySourceId\<close>.\<close>

definition index_task :: "task \<Rightarrow> (jsval \<rightharpoonup> task) \<Rightarrow> (jsval \<rightharpoonup> task)" where
  "index_task t m = (if truthy (source_id t) then m(source_id t \<mapsto> t) else m)"

text \<open>The object \<^verbatim>\<open>todo\<close> as \<^verbatim>\<open>notionCollectTodos\<close> builds it.\<close>

definition todo_obj :: "remote_item \<Rightarrow> jsobj" where
  "todo_obj todo =
     no_props(''source_id'' := JStr (r_source_id todo),
              ''title'' := JStr (r_title todo),
              ''completed'' := JBool (r_completed todo),
              ''description'' := JStr (r_description todo),
              ''source_url'' := JStr (r_source_url todo))"

text \<open>The argument of \<^verbatim>\<open>dbUpdateTask\<close> for a to-do that has a local task.\<close>

definition pull_fields :: "remote_item \<Rightarrow> jsobj" where
  "pull_fields todo =
     no_props(''title'' := JStr (r_title todo),
              ''description'' := JStr (r_description todo),
              ''completed'' := JBool (r_completed todo),
              ''source_url'' := JStr (r_source_url todo))"

text \<open>\<^verbatim>\<open>{ ...todo, source: 'notion', connection_id: conn.id }\<close>\<close>

definition pull_data :: "connection \<Rightarrow> remote_item \<Rightarrow> jsobj" where
  "pull_data conn todo =
     (todo_obj todo)(''source'' := JStr ''notion'',
                     ''connection_id'' := JNum (int (c_id conn)))"

text \<open>
  Body of the loop over \<^verbatim>\<open>remoteTodos\<close>; the state of the loop is the set
  \<^verbatim>\<open>remoteIds\<close> (as a list) and the world.
\<close>

definition pull_todo ::
  "env \<Rightarrow> connection \<Rightarrow> (jsval \<rightharpoonup> task) \<Rightarrow> remote_item \<Rightarrow> jsval list \<times> world
     \<Rightarrow> jsval list \<times> world" where
  "pull_todo e conn localBySourceId todo st =
     (case st of (remoteIds, w) \<Rightarrow>
        (case localBySourceId (JStr (r_source_id todo)) of
           Some existing \<Rightarrow>
             (remoteIds @ [JStr (r_source_id todo)],
              snd (dbUpdateTask e (t_id existing) (pull_fields todo) w))
         | None \<Rightarrow>
             (remoteIds @ [JStr (r_source_id todo)],
              snd (dbCreateTask e (pull_data conn todo) w))))"

text \<open>Body of the loop that removes deleted to-dos.\<close>

definition remove_deleted :: "connection \<Rightarrow> jsval list \<Rightarrow> task \<Rightarrow> world \<Rightarrow> world" where
  "remove_deleted conn remoteIds local w =
     (if truthy (source_id local) \<and> connection_id local = JNum (int (c_id conn))
         \<and> source_id local \<notin> set remoteIds
      then snd (dbDeleteTask (t_id local) w)
      else w)"

text \<open>\<^verbatim>\<open>syncConnection\<close> returns \<^verbatim>\<open>{ synced: remoteTodos.length }\<close>, here the number.\<close>

definition syncConnection :: "env \<Rightarrow> connection \<Rightarrow> world \<Rightarrow> (string + nat) \<times> world" where
  "syncConnection e conn w =
     (let localTasks = dbGetAllTasks (no_props(''source'' := JStr ''notion'')) w;
          w1 = fold (push_task e conn) localTasks w
      in case notionFetchTodos e (token conn) (database_id conn) w1 of
           (Inl err, w2) \<Rightarrow> (Inl err, w2)
         | (Inr remoteTodos, w2) \<Rightarrow>
             (let localBySourceId = fold index_task localTasks Map.empty
              in case fold (pull_todo e conn localBySourceId) remoteTodos ([], w2) of
                   (remoteIds, w3) \<Rightarrow>
                     (let w4 = fold (remove_deleted conn remoteIds) localTasks w3
                      in case localNow e w4 of
                           (now, w5) \<Rightarrow>
                             (Inr (length remoteTodos),
                              snd (dbUpdateConnection (c_id conn)
                                     (\<lambda>c. c\<lparr>last_synced_at := Some now\<rparr>) w5)))))"

text \<open>
  A \<^verbatim>\<open>for\<close> loop whose body can reject: the first rejection ends the loop and is the
  loop's result.
\<close>

fun for_each ::
  "('a \<Rightarrow> world \<Rightarrow> (string + unit) \<times> world) \<Rightarrow> 'a list \<Rightarrow> world \<Rightarrow> (string + unit) \<times> world" where
  "for_each body [] w = (Inr (), w)"
| "for_each body (x # xs) w =
     (case body x w of
        (Inl err, w') \<Rightarrow> (Inl err, w')
      | (Inr _, w') \<Rightarrow> for_each body xs w')"

definition log_line :: "logline \<Rightarrow> world \<Rightarrow> world" where
  "log_line l w = w\<lparr>console := console w @ [l]\<rparr>"

text \<open>Body of the loop of \<^verbatim>\<open>syncAllConnections\<close>.\<close>

definition sync_one :: "env \<Rightarrow> connection \<Rightarrow> world \<Rightarrow> (string + unit) \<times> world" where
  "sync_one e conn w =
     (if \<not> truthy (enabled conn) \<or> c_type conn \<noteq> JStr ''notion'' then (Inr (), w)
      else (case syncConnection e conn w of
              (Inr synced, w') \<Rightarrow>
                (Inr (), log_line (ConsoleLog [JStr ''[Sync]'', JStr (c_name conn @ '':''),
                                               JNum (int synced), JStr ''todos'']) w')
            | (Inl msg, w') \<Rightarrow>
                (Inr (), log_line (ConsoleError [JStr ''[Sync]'', JStr (c_name conn),
                                                 JStr ''failed:'', JStr msg]) w')))"

definition syncAllConnections :: "env \<Rightarrow> world \<Rightarrow> (string + unit) \<times> world" where
  "syncAllConnections e w = for_each (sync_one e) (dbGetAllConnections w) w"

text \<open>The \<^verbatim>\<open>try\<close> block of \<^verbatim>\<open>pushTaskToNotion\<close>.\<close>

definition push_updates ::
  "env \<Rightarrow> string \<Rightarrow> task \<Rightarrow> jsobj \<Rightarrow> world \<Rightarrow> (string + unit) \<times> world" where
  "push_updates e tok t updates w =
     (case (if updates ''completed'' \<noteq> JUndefined
            then notionUpdateTodoChecked e tok (source_id t) (truthy (updates ''completed'')) w
            else (Inr (), w)) of
        (Inl err, w1) \<Rightarrow> (Inl err, w1)
      | (Inr _, w1) \<Rightarrow>
          (if updates ''title'' \<noteq> JUndefined \<and> updates ''title'' \<noteq> title t
           then notionUpdateTodoText e tok (source_id t) (updates ''title'') w1
           else (Inr (), w1)))"

definition pushTaskToNotion ::
  "env \<Rightarrow> task \<Rightarrow> jsobj \<Rightarrow> world \<Rightarrow> (string + unit) \<times> world" where
  "pushTaskToNotion e t updates w =
     (if source t \<noteq> JStr ''notion'' \<or> \<not> truthy (source_id t) then (Inr (), w)
      else (case find (\<lambda>c. JNum (int (c_id c)) = connection_id t \<and> truthy (enabled c))
                   (dbGetAllConnections w) of
              None \<Rightarrow> (Inr (), w)
            | Some conn \<Rightarrow>
                (case push_updates e (token conn) t updates w of
                   (Inl msg, w') \<Rightarrow>
                     (Inr (), log_line (ConsoleError [JStr ''[Notion push]'', JStr msg]) w')
                 | (Inr _, w') \<Rightarrow> (Inr (), w'))))"

section \<open>The handlers that write to the store\<close>

text \<open>
  The submit handler of the task form; \<open>ttl\<close> and \<open>desc\<close> are the trimmed values of the
  inputs, \<open>due\<close> the value of the date input.
\<close>

definition form_body :: "string \<Rightarrow> string \<Rightarrow> string \<Rightarrow> jsobj" where
  "form_body ttl desc due =
     (let b0 = no_props(''title'' := JStr ttl);
          b1 = (if desc \<noteq> [] then b0(''description'' := JStr desc) else b0)
      in if due \<noteq> [] then b1(''due_date'' := JStr due) else b1)"

definition submitTaskForm :: "env \<Rightarrow> string \<Rightarrow> string \<Rightarrow> string \<Rightarrow> world \<Rightarrow> world" where
  "submitTaskForm e ttl desc due w =
     (if ttl = [] then w else snd (dbCreateTask e (form_body ttl desc due) w))"

text \<open>\<^verbatim>\<open>toggleComplete(task, itemEl)\<close>; \<open>t\<close> is the task object the list was rendered from.\<close>

definition toggleComplete :: "env \<Rightarrow> task \<Rightarrow> world \<Rightarrow> world" where
  "toggleComplete e t w =
     (let newVal = JBool (\<not> truthy (completed t));
          w1 = snd (dbUpdateTask e (t_id t) (no_props(''completed'' := newVal)) w)
      in snd (pushTaskToNotion e t (no_props(''completed'' := newVal)) w1))"

text \<open>\<^verbatim>\<open>doDelete(id)\<close>\<close>

definition doDelete :: "nat \<Rightarrow> world \<Rightarrow> world" where
  "doDelete i w = snd (dbDeleteTask i w)"

text \<open>
  The submit handler of the edit form; \<open>disabled\<close> is \<^verbatim>\<open>editDesc.disabled\<close>, set by
  \<^verbatim>\<open>openEdit\<close> for a Notion task.
\<close>

definition edit_body :: "string \<Rightarrow> bool \<Rightarrow> string \<Rightarrow> string \<Rightarrow> jsobj" where
  "edit_body ttl disabled desc due =
     no_props(''title'' := JStr ttl,
              ''description'' := (if disabled then JUndefined else JStr desc),
              ''due_date'' := js_or (JStr due) JNull)"

definition submitEditForm ::
  "env \<Rightarrow> nat \<Rightarrow> string \<Rightarrow> bool \<Rightarrow> string \<Rightarrow> string \<Rightarrow> world \<Rightarrow> world" where
  "submitEditForm e i ttl disabled desc due w =
     (let existing = dbGetTask i w;
          body = edit_body ttl disabled desc due
      in if \<not> truthy (body ''title'') then w
         else (let w1 = snd (dbUpdateTask e i body w)
               in case existing of
                    None \<Rightarrow> w1
                  | Some t \<Rightarrow> snd (pushTaskToNotion e t body w1)))"

text \<open>The click handler of a connection card's sync button.\<close>

definition clickSync :: "env \<Rightarrow> connection \<Rightarrow> world \<Rightarrow> world" where
  "clickSync e conn w =
     (case syncConnection e conn w of
        (Inr r, w') \<Rightarrow> w'
      | (Inl msg, w') \<Rightarrow> log_line (ConsoleError [JStr msg]) w')"

text \<open>The click handler of a connection card's delete button, once confirmed.\<close>

definition delete_owned :: "connection \<Rightarrow> task \<Rightarrow> world \<Rightarrow> world" where
  "delete_owned conn t w =
     (if connection_id t = JNum (int (c_id conn)) then snd (dbDeleteTask (t_id t) w) else w)"

definition clickDeleteConnection :: "connection \<Rightarrow> world \<Rightarrow> world" where
  "clickDeleteConnection conn w =
     (let ts = dbGetAllTasks (no_props(''source'' := JStr ''notion'')) w;
          w1 = fold (delete_owned conn) ts w
      in snd (dbDeleteConnection (c_id conn) w1))"

text \<open>The click handler of the save button of the connection form, after a passed test.\<close>

definition clickSaveConnection :: "env \<Rightarrow> string \<Rightarrow> string \<Rightarrow> string \<Rightarrow> world \<Rightarrow> world" where
  "clickSaveConnection e nm tok dbid w =
     snd (dbCreateConnection e (JStr ''notion'') (if nm = [] then ''Notion DB'' else nm)
            tok dbid w)"

definition empty_world :: world where
  "empty_world = \<lparr> tasks = [], task_key = 0, conns = [], conn_key = 0, ticks = 0,
                   calls = [], console = [] \<rparr>"

text \<open>
  The worlds the program reaches from empty stores: every handler that writes to the
  store, run on any input, and the timer's \<^verbatim>\<open>syncAllConnections\<close>. A sync button belongs
  to a connection that was read from the store when the settings were rendered.
\<close>

inductive reachable :: "env \<Rightarrow> world \<Rightarrow> bool" for e :: env where
  start: "reachable e empty_world"
| submit_task: "reachable e w \<Longrightarrow> reachable e (submitTaskForm e ttl desc due w)"
| toggle: "reachable e w \<Longrightarrow> reachable e (toggleComplete e t w)"
| edit: "reachable e w \<Longrightarrow> reachable e (submitEditForm e i ttl disabled desc due w)"
| delete: "reachable e w \<Longrightarrow> reachable e (doDelete i w)"
| save_connection: "reachable e w \<Longrightarrow> reachable e (clickSaveConnection e nm tok dbid w)"
| sync: "reachable e w0 \<Longrightarrow> conn \<in> set (conns w0) \<Longrightarrow> reachable e w \<Longrightarrow>
         reachable e (clickSync e conn w)"
| delete_connection: "reachable e w \<Longrightarrow> reachable e (clickDeleteConnection conn w)"
| sync_all: "reachable e w \<Longrightarrow> reachable e (snd (syncAllConnections e w))"

section \<open>Notions used in the statements\<close>

subsection \<open>Tasks and keys\<close>

text \<open>
  A task of the connection that has a remote identifier: the test
  \<^verbatim>\<open>task.source_id && task.connection_id === conn.id\<close> of the push loop and the delete loop.
\<close>

definition owned_by :: "connection \<Rightarrow> task \<Rightarrow> bool" where
  "owned_by conn t \<longleftrightarrow> truthy (source_id t) \<and> connection_id t = JNum (int (c_id conn))"

text \<open>\<^verbatim>\<open>localTasks\<close>, the result of \<^verbatim>\<open>dbGetAllTasks({ source: 'notion' })\<close>.\<close>

definition notion_tasks :: "world \<Rightarrow> task list" where
  "notion_tasks w = dbGetAllTasks (no_props(''source'' := JStr ''notion'')) w"

definition not_notion :: "task \<Rightarrow> bool" where
  "not_notion t \<longleftrightarrow> source t \<noteq> JStr ''notion''"

text \<open>The properties of a task that no write of \<^verbatim>\<open>dbUpdateTask\<close> reaches.\<close>

definition same_identity :: "task \<Rightarrow> task \<Rightarrow> bool" where
  "same_identity t u \<longleftrightarrow>
     t_id u = t_id t \<and> source u = source t \<and> source_id u = source_id t \<and>
     connection_id u = connection_id t \<and> created_at u = created_at t"

text \<open>
  What the object store guarantees of its keys: no two records under one key, and no
  key above the key generator.
\<close>

definition keys_ok :: "world \<Rightarrow> bool" where
  "keys_ok w \<longleftrightarrow> distinct (map t_id (tasks w)) \<and> (\<forall>t\<in>set (tasks w). t_id t \<le> task_key w)"

text \<open>The record \<^verbatim>\<open>dbUpdateTask\<close> puts for the record \<open>t\<close> it got, at the time \<open>now\<close>.\<close>

definition written :: "jsobj \<Rightarrow> nat \<Rightarrow> task \<Rightarrow> task" where
  "written flds now t = (fold (update_field flds) allowed t)\<lparr>updated_at := now\<rparr>"

subsection \<open>The phases of one \<^verbatim>\<open>syncConnection\<close>\<close>

definition push_of :: "connection \<Rightarrow> task \<Rightarrow> call" where
  "push_of conn t = UpdateTodoChecked (token conn) (source_id t) (truthy (completed t))"

definition fetch_of :: "connection \<Rightarrow> call" where
  "fetch_of conn = FetchTodos (token conn) (database_id conn)"

fun is_fetch :: "call \<Rightarrow> bool" where
  "is_fetch (FetchTodos tok dbid) = True"
| "is_fetch (UpdateTodoChecked tok blockId checked) = False"
| "is_fetch (UpdateTodoText tok blockId txt) = False"

text \<open>The world after the push loop.\<close>

definition pushed :: "env \<Rightarrow> connection \<Rightarrow> world \<Rightarrow> world" where
  "pushed e conn w = fold (push_task e conn) (notion_tasks w) w"

text \<open>What the remote side answers to the fetch of this call.\<close>

definition fetch_reply :: "env \<Rightarrow> connection \<Rightarrow> world \<Rightarrow> reply" where
  "fetch_reply e conn w =
     notion e (calls (pushed e conn w)) (FetchTodos (token conn) (database_id conn))"

text \<open>The world after the fetch.\<close>

definition fetched :: "env \<Rightarrow> connection \<Rightarrow> world \<Rightarrow> world" where
  "fetched e conn w =
     (pushed e conn w)\<lparr>calls := calls (pushed e conn w)
                                 @ [FetchTodos (token conn) (database_id conn)]\<rparr>"

text \<open>\<^verbatim>\<open>localBySourceId\<close>\<close>

definition local_index :: "world \<Rightarrow> (jsval \<rightharpoonup> task)" where
  "local_index w = fold index_task (notion_tasks w) Map.empty"

text \<open>\<^verbatim>\<open>remoteIds\<close> and the world after the loop over the fetched list \<open>todos\<close>.\<close>

definition pulled :: "env \<Rightarrow> connection \<Rightarrow> remote_item list \<Rightarrow> world \<Rightarrow> jsval list \<times> world" where
  "pulled e conn todos w =
     fold (pull_todo e conn (local_index w)) todos ([], fetched e conn w)"

definition remote_ids :: "remote_item list \<Rightarrow> jsval list" where
  "remote_ids todos = map (\<lambda>todo. JStr (r_source_id todo)) todos"

text \<open>The world after the delete loop, and after the stamp on the connection.\<close>

definition swept :: "env \<Rightarrow> connection \<Rightarrow> remote_item list \<Rightarrow> world \<Rightarrow> world" where
  "swept e conn todos w =
     fold (remove_deleted conn (fst (pulled e conn todos w))) (notion_tasks w)
       (snd (pulled e conn todos w))"

definition stamped :: "env \<Rightarrow> connection \<Rightarrow> remote_item list \<Rightarrow> world \<Rightarrow> world" where
  "stamped e conn todos w =
     snd (dbUpdateConnection (c_id conn)
            (\<lambda>c. c\<lparr>last_synced_at := Some (fst (localNow e (swept e conn todos w)))\<rparr>)
            (snd (localNow e (swept e conn todos w))))"

text \<open>
  A task of the connection whose remote identifier was not fetched, and the keys the
  delete loop removes.
\<close>

definition orphan :: "connection \<Rightarrow> remote_item list \<Rightarrow> task \<Rightarrow> bool" where
  "orphan conn todos l \<longleftrightarrow> owned_by conn l \<and> source_id l \<notin> set (remote_ids todos)"

definition orphan_keys :: "connection \<Rightarrow> remote_item list \<Rightarrow> world \<Rightarrow> nat set" where
  "orphan_keys conn todos w =
     t_id ` {l \<in> set (tasks w). source l = JStr ''notion'' \<and> orphan conn todos l}"

text \<open>The to-do \<open>todo\<close> has a local task in the lookup \<open>m\<close>, stored under the key \<open>i\<close>.\<close>

definition targets :: "(jsval \<rightharpoonup> task) \<Rightarrow> remote_item \<Rightarrow> nat \<Rightarrow> bool" where
  "targets m todo i \<longleftrightarrow> (\<exists>ex. m (JStr (r_source_id todo)) = Some ex \<and> t_id ex = i)"

subsection \<open>The store during the pull, relative to the store \<open>w\<close> at the start\<close>

text \<open>The record \<^verbatim>\<open>dbCreateTask\<close> stores for a to-do, in the properties it takes from it.\<close>

definition created_from :: "remote_item \<Rightarrow> task \<Rightarrow> bool" where
  "created_from todo u \<longleftrightarrow>
     source_id u = js_or (JStr (r_source_id todo)) JNull \<and>
     title u = JStr (r_title todo) \<and>
     description u = JStr (r_description todo) \<and>
     completed u = JNum (if r_completed todo then 1 else 0) \<and>
     source_url u = js_or (JStr (r_source_url todo)) JNull"

text \<open>A record created by the pull for one of the to-dos.\<close>

definition pulled_new :: "connection \<Rightarrow> remote_item list \<Rightarrow> world \<Rightarrow> task \<Rightarrow> bool" where
  "pulled_new conn todos w u \<longleftrightarrow>
     task_key w < t_id u \<and> source u = JStr ''notion'' \<and>
     connection_id u = js_or (JNum (int (c_id conn))) JNull \<and>
     (\<exists>todo\<in>set todos. created_from todo u)"

text \<open>The record \<open>u\<close> is the task \<open>t\<close> of the start, rewritten at most if \<open>t\<close> is a Notion task.\<close>

definition kept :: "task \<Rightarrow> task \<Rightarrow> bool" where
  "kept t u \<longleftrightarrow> same_identity t u \<and> (not_notion t \<longrightarrow> u = t)"

definition descends :: "connection \<Rightarrow> remote_item list \<Rightarrow> world \<Rightarrow> task \<Rightarrow> bool" where
  "descends conn todos w u \<longleftrightarrow> (\<exists>t\<in>set (tasks w). kept t u) \<or> pulled_new conn todos w u"

text \<open>The invariant of the loop over the fetched list.\<close>

definition mid :: "connection \<Rightarrow> remote_item list \<Rightarrow> world \<Rightarrow> world \<Rightarrow> bool" where
  "mid conn todos w0 w \<longleftrightarrow>
     keys_ok w \<and> task_key w0 \<le> task_key w \<and>
     (\<forall>u\<in>set (tasks w). descends conn todos w0 u) \<and>
     (\<forall>t\<in>set (tasks w0). \<exists>u\<in>set (tasks w). kept t u) \<and>
     filter not_notion (tasks w) = filter not_notion (tasks w0)"

subsection \<open>\<^verbatim>\<open>syncAllConnections\<close>\<close>

text \<open>The connections the loop does not skip.\<close>

definition eligible :: "connection \<Rightarrow> bool" where
  "eligible c \<longleftrightarrow> truthy (enabled c) \<and> c_type c = JStr ''notion''"

text \<open>One \<^verbatim>\<open>syncConnection\<close> with its outcome written to the console.\<close>

definition sync_report :: "connection \<Rightarrow> string + nat \<Rightarrow> logline" where
  "sync_report conn r =
     (case r of
        Inr synced \<Rightarrow> ConsoleLog [JStr ''[Sync]'', JStr (c_name conn @ '':''),
                                   JNum (int synced), JStr ''todos'']
      | Inl msg \<Rightarrow> ConsoleError [JStr ''[Sync]'', JStr (c_name conn), JStr ''failed:'', JStr msg])"

definition sync_logged :: "env \<Rightarrow> connection \<Rightarrow> world \<Rightarrow> world" where
  "sync_logged e conn w =
     log_line (sync_report conn (fst (syncConnection e conn w))) (snd (syncConnection e conn w))"

subsection \<open>The invariant of the task store\<close>

text \<open>Notion gives every block an id: no fetched to-do has an empty \<^verbatim>\<open>source_id\<close>.\<close>

definition block_ids_present :: "env \<Rightarrow> bool" where
  "block_ids_present e \<longleftrightarrow>
     (\<forall>h c todos. notion e h c = Resolved todos \<longrightarrow> (\<forall>todo\<in>set todos. r_source_id todo \<noteq> []))"

text \<open>
  A stored task is a local one, without remote identifier and connection, or a Notion
  one with both.
\<close>

definition task_ok :: "task \<Rightarrow> bool" where
  "task_ok t \<longleftrightarrow>
     (source t = JStr ''local'' \<and> source_id t = JNull \<and> connection_id t = JNull) \<or>
     (source t = JStr ''notion'' \<and> truthy (source_id t) \<and> truthy (connection_id t))"

definition store_ok :: "world \<Rightarrow> bool" where
  "store_ok w \<longleftrightarrow>
     keys_ok w \<and> (\<forall>t\<in>set (tasks w). task_ok t) \<and> (\<forall>c\<in>set (conns w). 0 < c_id c)"

subsection \<open>The same pull, twice\<close>

text \<open>The record \<open>b\<close> is the record \<open>a\<close>, but for the time of the last write.\<close>

definition restamped :: "task \<Rightarrow> task \<Rightarrow> bool" where
  "restamped a b \<longleftrightarrow> b\<lparr>updated_at := updated_at a\<rparr> = a"

text \<open>The task holds the values of the to-do in the four properties the pull writes.\<close>

definition holds_remote :: "remote_item \<Rightarrow> task \<Rightarrow> bool" where
  "holds_remote todo t \<longleftrightarrow>
     title t = JStr (r_title todo) \<and> description t = JStr (r_description todo) \<and>
     completed t = JNum (if r_completed todo then 1 else 0) \<and>
     source_url t = JStr (r_source_url todo)"

text \<open>No two Notion tasks of the store carry the same remote identifier.\<close>

definition unique_source_ids :: "world \<Rightarrow> bool" where
  "unique_source_ids w \<longleftrightarrow>
     (\<forall>a\<in>set (tasks w). \<forall>b\<in>set (tasks w).
        source a = JStr ''notion'' \<and> source b = JStr ''notion'' \<and> truthy (source_id a) \<and>
        source_id a = source_id b \<longrightarrow> a = b)"

section \<open>Example worlds\<close>

definition ex_env :: env where
  "ex_env = \<lparr> clock = (\<lambda>n. 100 + n), notion = (\<lambda>h c. Rejected ''HTTP 500'') \<rparr>"

definition ex_task :: task where
  "ex_task = \<lparr> t_id = 1, title = JStr ''Buy milk'', description = JStr ''Home'',
               completed = JNum 0, due_date = JNull, source = JStr ''notion'',
               source_id = JStr ''x'', source_url = JStr ''https://n.example/p#x'',
               connection_id = JNum 1, created_at = 10, updated_at = 10 \<rparr>"

definition ex_conn :: connection where
  "ex_conn = \<lparr> c_id = 1, c_type = JStr ''notion'', c_name = ''Inbox'', token = ''secret'',
               database_id = ''db1'', enabled = JNum 1, last_synced_at = None,
               c_created_at = 5 \<rparr>"

definition ex_world :: world where
  "ex_world = \<lparr> tasks = [ex_task], task_key = 1, conns = [ex_conn], conn_key = 1,
                ticks = 0, calls = [], console = [] \<rparr>"

definition ex_fields :: jsobj where
  "ex_fields = no_props(''id'' := JNum 99, ''source'' := JStr ''local'',
                        ''source_id'' := JStr ''y'', ''connection_id'' := JNum 7,
                        ''created_at'' := JStr ''never'', ''completed'' := JStr ''yes'',
                        ''title'' := JStr ''Buy oat milk'')"

definition ex_item :: remote_item where
  "ex_item = \<lparr> r_source_id = ''y'', r_title = ''Call Ann'', r_completed = True,
               r_description = ''Work'', r_source_url = ''https://n.example/q#y'' \<rparr>"

definition ex_conn2 :: connection where
  "ex_conn2 = \<lparr> c_id = 2, c_type = JStr ''notion'', c_name = ''Work'', token = ''secret2'',
                database_id = ''db2'', enabled = JNum 1, last_synced_at = None,
                c_created_at = 6 \<rparr>"

definition ex_conn3 :: connection where
  "ex_conn3 = \<lparr> c_id = 3, c_type = JStr ''notion'', c_name = ''Old'', token = ''secret3'',
                database_id = ''db3'', enabled = JNum 0, last_synced_at = None,
                c_created_at = 7 \<rparr>"

text \<open>A remote side on which the database \<^verbatim>\<open>db1\<close> cannot be read.\<close>

definition ex_env2 :: env where
  "ex_env2 = \<lparr> clock = (\<lambda>n. 100 + n),
               notion = (\<lambda>h c. case c of
                           FetchTodos tok dbid \<Rightarrow>
                             if dbid = ''db1'' then Rejected ''HTTP 401'' else Resolved [ex_item]
                         | UpdateTodoChecked tok b v \<Rightarrow> Resolved []
                         | UpdateTodoText tok b v \<Rightarrow> Resolved []) \<rparr>"

definition ex_world2 :: world where
  "ex_world2 = \<lparr> tasks = [ex_task], task_key = 1, conns = [ex_conn, ex_conn3, ex_conn2],
                 conn_key = 3, ticks = 0, calls = [], console = [] \<rparr>"

text \<open>
  A store with two Notion tasks of the connection \<open>ex_conn\<close> and one local task, and a
  remote side whose list holds the to-do \<^verbatim>\<open>x\<close> only, checked and retitled.
\<close>

definition ex_task_y :: task where
  "ex_task_y = \<lparr> t_id = 2, title = JStr ''Pay rent'', description = JStr ''Home'',
                 completed = JNum 1, due_date = JNull, source = JStr ''notion'',
                 source_id = JStr ''y'', source_url = JStr ''https://n.example/p#y'',
                 connection_id = JNum 1, created_at = 11, updated_at = 11 \<rparr>"

definition ex_task_local :: task where
  "ex_task_local = \<lparr> t_id = 3, title = JStr ''Water plants'', description = JStr '''',
                     completed = JNum 0, due_date = JStr ''2026-01-31'', source = JStr ''local'',
                     source_id = JNull, source_url = JNull, connection_id = JNull,
                     created_at = 12, updated_at = 12 \<rparr>"

definition ex_item_x :: remote_item where
  "ex_item_x = \<lparr> r_source_id = ''x'', r_title = ''Buy oat milk'', r_completed = True,
                 r_description = ''Home'', r_source_url = ''https://n.example/p#x'' \<rparr>"

definition ex_env3 :: env where
  "ex_env3 = \<lparr> clock = (\<lambda>n. 100 + n),
               notion = (\<lambda>h c. case c of
                           FetchTodos tok dbid \<Rightarrow> Resolved [ex_item_x]
                         | UpdateTodoChecked tok b v \<Rightarrow> Resolved []
                         | UpdateTodoText tok b v \<Rightarrow> Resolved []) \<rparr>"

definition ex_world3 :: world where
  "ex_world3 = \<lparr> tasks = [ex_task, ex_task_y, ex_task_local], task_key = 3,
                 conns = [ex_conn], conn_key = 1, ticks = 0, calls = [], console = [] \<rparr>"

text \<open>
  A store in which the task of another connection (key 2) carries the remote
  identifier \<^verbatim>\<open>x\<close>, and no task of the connection \<open>ex_conn\<close> (key 1) does.
\<close>

definition ex_task_other :: task where
  "ex_task_other = \<lparr> t_id = 1, title = JStr ''Buy milk'', description = JStr ''Home'',
                     completed = JNum 0, due_date = JNull, source = JStr ''notion'',
                     source_id = JStr ''x'', source_url = JStr ''https://n.example/p#x'',
                     connection_id = JNum 2, created_at = 10, updated_at = 10 \<rparr>"

definition ex_world4 :: world where
  "ex_world4 = \<lparr> tasks = [ex_task_other], task_key = 1, conns = [ex_conn, ex_conn2],
                 conn_key = 2, ticks = 0, calls = [], console = [] \<rparr>"

text \<open>
  A store in which two tasks of the connection \<open>ex_conn\<close> carry the remote identifier
  \<^verbatim>\<open>x\<close>.
\<close>

definition ex_task_twin :: task where
  "ex_task_twin = \<lparr> t_id = 2, title = JStr ''Buy milk'', description = JStr ''Home'',
                    completed = JNum 0, due_date = JNull, source = JStr ''notion'',
                    source_id = JStr ''x'', source_url = JStr ''https://n.example/p#x'',
                    connection_id = JNum 1, created_at = 20, updated_at = 20 \<rparr>"

definition ex_world5 :: world where
  "ex_world5 = \<lparr> tasks = [ex_task, ex_task_twin], task_key = 2, conns = [ex_conn],
                 conn_key = 1, ticks = 0, calls = [], console = [] \<rparr>"

definition ex_item_z :: remote_item where
  "ex_item_z = \<lparr> r_source_id = ''z'', r_title = ''Book flight'', r_completed = False,
                 r_description = ''Trips'', r_source_url = ''https://n.example/t#z'' \<rparr>"

definition ex_env4 :: env where
  "ex_env4 = \<lparr> clock = (\<lambda>n. 100 + n),
               notion = (\<lambda>h c. case c of
                           FetchTodos tok dbid \<Rightarrow> Resolved [ex_item_x, ex_item_z]
                         | UpdateTodoChecked tok b v \<Rightarrow> Resolved []
                         | UpdateTodoText tok b v \<Rightarrow> Resolved []) \<rparr>"

text \<open>
  A store in which two checked tasks of the connection \<open>ex_conn\<close> carry the remote
  identifier \<^verbatim>\<open>x\<close>, and a remote side that refuses every update (an integration
  without the right to write) and lists the to-do \<^verbatim>\<open>x\<close> unchecked and retitled.
\<close>

definition ex_task_done :: task where
  "ex_task_done = \<lparr> t_id = 1, title = JStr ''Buy milk'', description = JStr ''Home'',
                    completed = JNum 1, due_date = JNull, source = JStr ''notion'',
                    source_id = JStr ''x'', source_url = JStr ''https://n.example/p#x'',
                    connection_id = JNum 1, created_at = 10, updated_at = 10 \<rparr>"

definition ex_task_done_twin :: task where
  "ex_task_done_twin = \<lparr> t_id = 2, title = JStr ''Buy milk'', description = JStr ''Home'',
                         completed = JNum 1, due_date = JNull, source = JStr ''notion'',
                         source_id = JStr ''x'', source_url = JStr ''https://n.example/p#x'',
                         connection_id = JNum 1, created_at = 20, updated_at = 20 \<rparr>"

definition ex_item_open :: remote_item where
  "ex_item_open = \<lparr> r_source_id = ''x'', r_title = ''Buy oat milk'', r_completed = False,
                    r_description = ''Home'', r_source_url = ''https://n.example/p#x'' \<rparr>"

definition ex_env5 :: env where
  "ex_env5 = \<lparr> clock = (\<lambda>n. 100 + n),
               notion = (\<lambda>h c. case c of
                           FetchTodos tok dbid \<Rightarrow> Resolved [ex_item_open]
                         | UpdateTodoChecked tok b v \<Rightarrow> Rejected ''HTTP 403''
                         | UpdateTodoText tok b v \<Rightarrow> Rejected ''HTTP 403'') \<rparr>"

definition ex_world6 :: world where
  "ex_world6 = \<lparr> tasks = [ex_task_done, ex_task_done_twin], task_key = 2, conns = [ex_conn],
                 conn_key = 1, ticks = 0, calls = [], console = [] \<rparr>"

text \<open>
  A run of the program: a connection is saved, its sync button is clicked, and a task
  is entered in the form.
\<close>

definition ex_saved :: world where
  "ex_saved = clickSaveConnection ex_env3 ''Inbox'' ''secret'' ''db1'' empty_world"

definition ex_saved_conn :: connection where
  "ex_saved_conn = \<lparr> c_id = 1, c_type = JStr ''notion'', c_name = ''Inbox'', token = ''secret'',
                     database_id = ''db1'', enabled = JNum 1, last_synced_at = None,
                     c_created_at = 100 \<rparr>"

definition ex_reached :: world where
  "ex_reached =
     submitTaskForm ex_env3 ''Water plants'' [] [] (clickSync ex_env3 ex_saved_conn ex_saved)"

section \<open>Lemmas\<close>

subsection \<open>The loop over the allowed keys\<close>

lemma fold_update_field_frame:
  "t_id (fold (update_field flds) allowed t) = t_id t \<and>
   source (fold (update_field flds) allowed t) = source t \<and>
   source_id (fold (update_field flds) allowed t) = source_id t \<and>
   connection_id (fold (update_field flds) allowed t) = connection_id t \<and>
   created_at (fold (update_field flds) allowed t) = created_at t"
  by (simp add: allowed_def update_field_def set_prop_def)

lemma fold_update_field_completed:
  "completed (fold (update_field flds) allowed t) =
     (if flds ''completed'' = JUndefined then completed t else flag (flds ''completed''))"
  by (simp add: allowed_def update_field_def set_prop_def)

subsection \<open>What each operation leaves alone\<close>

lemma dbUpdateTask_other:
  "calls (snd (dbUpdateTask e i flds w)) = calls w"
  "console (snd (dbUpdateTask e i flds w)) = console w"
  "conns (snd (dbUpdateTask e i flds w)) = conns w"
  "conn_key (snd (dbUpdateTask e i flds w)) = conn_key w"
  "task_key (snd (dbUpdateTask e i flds w)) = task_key w"
  by (simp_all add: dbUpdateTask_def localNow_def Let_def split: option.splits)

lemma dbCreateTask_other:
  "calls (snd (dbCreateTask e data w)) = calls w"
  "console (snd (dbCreateTask e data w)) = console w"
  "conns (snd (dbCreateTask e data w)) = conns w"
  "conn_key (snd (dbCreateTask e data w)) = conn_key w"
  by (simp_all add: dbCreateTask_def localNow_def Let_def)

lemma dbDeleteTask_other:
  "calls (snd (dbDeleteTask i w)) = calls w"
  "console (snd (dbDeleteTask i w)) = console w"
  "conns (snd (dbDeleteTask i w)) = conns w"
  "conn_key (snd (dbDeleteTask i w)) = conn_key w"
  "task_key (snd (dbDeleteTask i w)) = task_key w"
  "ticks (snd (dbDeleteTask i w)) = ticks w"
  by (simp_all add: dbDeleteTask_def split: option.splits)

lemma dbDeleteTask_tasks:
  "tasks (snd (dbDeleteTask i w)) = filter (\<lambda>u. t_id u \<noteq> i) (tasks w)"
proof (cases "dbGetTask i w")
  case None
  then have "\<forall>u\<in>set (tasks w). t_id u \<noteq> i"
    by (simp add: dbGetTask_def find_None_iff)
  then have "filter (\<lambda>u. t_id u \<noteq> i) (tasks w) = tasks w"
    by (simp add: filter_id_conv)
  with None show ?thesis by (simp add: dbDeleteTask_def)
next
  case (Some t)
  then show ?thesis by (simp add: dbDeleteTask_def)
qed

lemma dbUpdateConnection_other:
  "calls (snd (dbUpdateConnection i f w)) = calls w"
  "console (snd (dbUpdateConnection i f w)) = console w"
  "tasks (snd (dbUpdateConnection i f w)) = tasks w"
  "task_key (snd (dbUpdateConnection i f w)) = task_key w"
  "conn_key (snd (dbUpdateConnection i f w)) = conn_key w"
  "ticks (snd (dbUpdateConnection i f w)) = ticks w"
  by (simp_all add: dbUpdateConnection_def split: option.splits)

lemma pull_todo_other:
  "calls (snd (pull_todo e conn m todo st)) = calls (snd st)"
  "console (snd (pull_todo e conn m todo st)) = console (snd st)"
  "conns (snd (pull_todo e conn m todo st)) = conns (snd st)"
  "conn_key (snd (pull_todo e conn m todo st)) = conn_key (snd st)"
  by (simp_all add: pull_todo_def dbUpdateTask_other dbCreateTask_other
        split: prod.splits option.splits)

lemma fold_pull_todo_other:
  "calls (snd (fold (pull_todo e conn m) todos st)) = calls (snd st) \<and>
   console (snd (fold (pull_todo e conn m) todos st)) = console (snd st) \<and>
   conns (snd (fold (pull_todo e conn m) todos st)) = conns (snd st) \<and>
   conn_key (snd (fold (pull_todo e conn m) todos st)) = conn_key (snd st)"
  by (induction todos arbitrary: st) (simp_all add: pull_todo_other)

lemma remove_deleted_other:
  "calls (remove_deleted conn rids l w) = calls w"
  "console (remove_deleted conn rids l w) = console w"
  "conns (remove_deleted conn rids l w) = conns w"
  "conn_key (remove_deleted conn rids l w) = conn_key w"
  "task_key (remove_deleted conn rids l w) = task_key w"
  "ticks (remove_deleted conn rids l w) = ticks w"
  by (simp_all add: remove_deleted_def dbDeleteTask_other)

lemma fold_remove_deleted_other:
  "calls (fold (remove_deleted conn rids) ls w) = calls w \<and>
   console (fold (remove_deleted conn rids) ls w) = console w \<and>
   conns (fold (remove_deleted conn rids) ls w) = conns w \<and>
   conn_key (fold (remove_deleted conn rids) ls w) = conn_key w \<and>
   task_key (fold (remove_deleted conn rids) ls w) = task_key w \<and>
   ticks (fold (remove_deleted conn rids) ls w) = ticks w"
  by (induction ls arbitrary: w) (simp_all add: remove_deleted_other)

subsection \<open>The remote calls of the push loop\<close>

lemma push_task_calls:
  "calls (push_task e conn t w) = calls w @ (if owned_by conn t then [push_of conn t] else [])"
  by (simp add: push_task_def owned_by_def push_of_def notionUpdateTodoChecked_def
        notion_call_def split: reply.splits)

lemma push_task_other:
  "tasks (push_task e conn t w) = tasks w"
  "task_key (push_task e conn t w) = task_key w"
  "conns (push_task e conn t w) = conns w"
  "conn_key (push_task e conn t w) = conn_key w"
  "console (push_task e conn t w) = console w"
  "ticks (push_task e conn t w) = ticks w"
  by (simp_all add: push_task_def notionUpdateTodoChecked_def notion_call_def
        split: reply.splits)

lemma fold_push_task_calls:
  "calls (fold (push_task e conn) ts w) = calls w @ map (push_of conn) (filter (owned_by conn) ts)"
  by (induction ts arbitrary: w) (simp_all add: push_task_calls)

lemma fold_push_task_other:
  "tasks (fold (push_task e conn) ts w) = tasks w \<and>
   task_key (fold (push_task e conn) ts w) = task_key w \<and>
   conns (fold (push_task e conn) ts w) = conns w \<and>
   conn_key (fold (push_task e conn) ts w) = conn_key w \<and>
   console (fold (push_task e conn) ts w) = console w \<and>
   ticks (fold (push_task e conn) ts w) = ticks w"
  by (induction ts arbitrary: w) (simp_all add: push_task_other)

lemma notionFetchTodos_world:
  "snd (notionFetchTodos e tok dbid w) = w\<lparr>calls := calls w @ [FetchTodos tok dbid]\<rparr>"
  by (simp add: notionFetchTodos_def notion_call_def split: reply.splits)

subsection \<open>\<^verbatim>\<open>syncConnection\<close> by its phases\<close>

lemma syncConnection_rejected:
  assumes "fetch_reply e conn w = Rejected msg"
  shows "syncConnection e conn w = (Inl msg, fetched e conn w)"
  using assms
  by (simp add: syncConnection_def notion_tasks_def[symmetric] pushed_def[symmetric]
        fetch_reply_def fetched_def notionFetchTodos_def notion_call_def Let_def)

lemma syncConnection_resolved:
  assumes "fetch_reply e conn w = Resolved todos"
  shows "syncConnection e conn w = (Inr (length todos), stamped e conn todos w)"
  using assms
  by (simp add: syncConnection_def notion_tasks_def[symmetric] pushed_def[symmetric]
        fetch_reply_def fetched_def[symmetric] notionFetchTodos_def notion_call_def Let_def
        local_index_def[symmetric] pulled_def[symmetric] case_prod_beta
        swept_def[symmetric] stamped_def[symmetric])

lemma calls_pushed:
  "calls (pushed e conn w) = calls w @ map (push_of conn) (filter (owned_by conn) (notion_tasks w))"
  by (simp add: pushed_def fold_push_task_calls)

lemma calls_stamped:
  "calls (stamped e conn todos w) = calls (fetched e conn w)"
  by (simp add: stamped_def dbUpdateConnection_other localNow_def swept_def
        fold_remove_deleted_other pulled_def fold_pull_todo_other)

lemma syncConnection_calls:
  "calls (snd (syncConnection e conn w)) =
     calls w @ map (push_of conn) (filter (owned_by conn) (notion_tasks w))
       @ [FetchTodos (token conn) (database_id conn)]"
proof (cases "fetch_reply e conn w")
  case (Rejected msg)
  then show ?thesis
    by (simp add: syncConnection_rejected fetched_def calls_pushed)
next
  case (Resolved todos)
  then show ?thesis
    by (simp add: syncConnection_resolved calls_stamped fetched_def calls_pushed)
qed

subsection \<open>The loop of \<^verbatim>\<open>syncAllConnections\<close>\<close>

lemma sync_one_eq:
  "sync_one e conn w = (Inr (), if eligible conn then sync_logged e conn w else w)"
  by (cases "syncConnection e conn w")
     (auto simp: sync_one_def eligible_def sync_logged_def sync_report_def split: sum.splits)

lemma for_each_sync_one:
  "for_each (sync_one e) cs w = (Inr (), fold (sync_logged e) (filter eligible cs) w)"
  by (induction cs arbitrary: w) (simp_all add: sync_one_eq)

lemma sync_logged_fetches:
  "filter is_fetch (calls (sync_logged e conn w)) = filter is_fetch (calls w) @ [fetch_of conn]"
  by (simp add: sync_logged_def log_line_def syncConnection_calls push_of_def fetch_of_def
        filter_empty_conv)

lemma fold_sync_logged_fetches:
  "filter is_fetch (calls (fold (sync_logged e) cs w)) = filter is_fetch (calls w) @ map fetch_of cs"
  by (induction cs arbitrary: w) (simp_all add: sync_logged_fetches)

subsection \<open>The \<^verbatim>\<open>try\<close> block of \<^verbatim>\<open>pushTaskToNotion\<close>\<close>

lemma push_updates_world:
  "tasks (snd (push_updates e tok t updates w)) = tasks w \<and>
   conns (snd (push_updates e tok t updates w)) = conns w \<and>
   console (snd (push_updates e tok t updates w)) = console w"
  by (simp add: push_updates_def notionUpdateTodoChecked_def notionUpdateTodoText_def
        notion_call_def split: reply.splits)

subsection \<open>Reading a key after \<^verbatim>\<open>put\<close>\<close>

lemma find_idb_put_same:
  "find (\<lambda>u. t_id u = i) ts = Some t \<Longrightarrow> t_id t' = i \<Longrightarrow>
   find (\<lambda>u. t_id u = i) (idb_put t' ts) = Some t'"
  by (induction ts) (auto simp: idb_put_def split: if_splits)

lemma find_idb_put_other:
  "j \<noteq> t_id t' \<Longrightarrow> find (\<lambda>u. t_id u = j) (idb_put t' ts) = find (\<lambda>u. t_id u = j) ts"
  by (induction ts) (auto simp: idb_put_def)

lemma dbGetTask_id: "dbGetTask i w = Some t \<Longrightarrow> t_id t = i"
  by (auto simp: dbGetTask_def dest: find_Some_iff[THEN iffD1])

subsection \<open>\<^verbatim>\<open>dbGetAllTasks\<close> and the lookup by remote identifier\<close>

lemma set_insert_sorted: "set (insert_sorted cmp x ys) = insert x (set ys)"
  by (induction ys) auto

lemma set_js_sort: "set (js_sort cmp xs) = set xs"
  by (induction xs) (simp_all add: js_sort_def set_insert_sorted)

lemma set_notion_tasks:
  "set (notion_tasks w) = {t \<in> set (tasks w). source t = JStr ''notion''}"
  by (auto simp: notion_tasks_def dbGetAllTasks_def no_props_def set_js_sort)

lemma fold_index_task_Some:
  "fold index_task ts m k = Some t \<Longrightarrow>
     (t \<in> set ts \<and> source_id t = k \<and> truthy k) \<or> m k = Some t"
proof (induction ts rule: rev_induct)
  case Nil
  then show ?case by simp
next
  case (snoc x xs)
  then show ?case
    by (cases "truthy (source_id x) \<and> source_id x = k")
       (auto simp: index_task_def split: if_splits)
qed

lemma fold_index_task_None:
  "fold index_task ts m k = None \<Longrightarrow> t \<in> set ts \<Longrightarrow> truthy (source_id t) \<Longrightarrow>
   source_id t \<noteq> k"
proof (induction ts rule: rev_induct)
  case Nil
  then show ?case by simp
next
  case (snoc x xs)
  then show ?case
    by (cases "truthy (source_id x) \<and> source_id x = k")
       (auto simp: index_task_def split: if_splits)
qed

lemma fold_index_task_unique:
  assumes "t \<in> set ts" and "truthy (source_id t)"
    and "\<forall>u\<in>set ts. source_id u = source_id t \<longrightarrow> u = t"
  shows "fold index_task ts Map.empty (source_id t) = Some t"
proof (cases "fold index_task ts Map.empty (source_id t)")
  case None
  from fold_index_task_None[OF None assms(1,2)] show ?thesis by simp
next
  case (Some u)
  from fold_index_task_Some[OF Some] have "u \<in> set ts \<and> source_id u = source_id t"
    by simp
  with assms(3) Some show ?thesis by auto
qed

lemma local_index_Some:
  "local_index w k = Some t \<Longrightarrow>
     t \<in> set (tasks w) \<and> source t = JStr ''notion'' \<and> source_id t = k \<and> truthy k"
  using fold_index_task_Some[of "notion_tasks w" Map.empty k t]
  by (auto simp: local_index_def set_notion_tasks)

lemma local_index_None:
  "local_index w k = None \<Longrightarrow> t \<in> set (tasks w) \<Longrightarrow> source t = JStr ''notion'' \<Longrightarrow>
   truthy (source_id t) \<Longrightarrow> source_id t \<noteq> k"
  using fold_index_task_None[of "notion_tasks w" Map.empty k t]
  by (auto simp: local_index_def set_notion_tasks)

lemma local_index_unique:
  assumes "t \<in> set (tasks w)" and "source t = JStr ''notion''" and "truthy (source_id t)"
    and "\<forall>u\<in>set (tasks w). source u = JStr ''notion'' \<and> source_id u = source_id t \<longrightarrow> u = t"
  shows "local_index w (source_id t) = Some t"
  unfolding local_index_def
  by (rule fold_index_task_unique) (use assms in \<open>auto simp: set_notion_tasks\<close>)

subsection \<open>One write to the object store\<close>

lemma written_identity: "same_identity t (written flds now t)"
  by (simp add: same_identity_def written_def fold_update_field_frame)

lemma dbGetTask_Some: "dbGetTask i w = Some t \<Longrightarrow> t \<in> set (tasks w) \<and> t_id t = i"
  by (auto simp: dbGetTask_def find_Some_iff)

lemma dbGetTask_None: "dbGetTask i w = None \<Longrightarrow> t \<in> set (tasks w) \<Longrightarrow> t_id t \<noteq> i"
  by (auto simp: dbGetTask_def find_None_iff)

lemma dbGetTask_member:
  assumes "distinct (map t_id (tasks w))" and "t \<in> set (tasks w)"
  shows "dbGetTask (t_id t) w = Some t"
proof (cases "dbGetTask (t_id t) w")
  case None
  from dbGetTask_None[OF None assms(2)] show ?thesis by simp
next
  case (Some u)
  then have "u \<in> set (tasks w) \<and> t_id u = t_id t" by (rule dbGetTask_Some)
  with assms have "u = t" by (auto simp: distinct_map inj_on_def)
  with Some show ?thesis by simp
qed

lemma dbUpdateTask_world:
  "snd (dbUpdateTask e i flds w) =
     (case dbGetTask i w of
        None \<Rightarrow> w
      | Some t \<Rightarrow> w\<lparr>ticks := Suc (ticks w),
                     tasks := idb_put (written flds (clock e (ticks w)) t) (tasks w)\<rparr>)"
  by (simp add: dbUpdateTask_def localNow_def written_def Let_def split: option.splits)

lemma map_t_id_idb_put: "map t_id (idb_put t' ts) = map t_id ts"
  by (induction ts) (auto simp: idb_put_def)

lemma dbUpdateTask_ids: "map t_id (tasks (snd (dbUpdateTask e i flds w))) = map t_id (tasks w)"
  by (simp add: dbUpdateTask_world map_t_id_idb_put split: option.splits)

lemma set_idb_put: "set (idb_put t' ts) \<subseteq> insert t' (set ts)"
  by (auto simp: idb_put_def)

lemma dbCreateTask_world:
  "snd (dbCreateTask e data w) =
     w\<lparr>ticks := Suc (ticks w), tasks := tasks w @ [fst (dbCreateTask e data w)],
       task_key := Suc (task_key w)\<rparr>"
  by (simp add: dbCreateTask_def localNow_def Let_def)

lemma dbCreateTask_record:
  "t_id (fst (dbCreateTask e data w)) = Suc (task_key w)"
  "source (fst (dbCreateTask e data w)) = js_or (data ''source'') (JStr ''local'')"
  "source_id (fst (dbCreateTask e data w)) = js_or (data ''source_id'') JNull"
  "connection_id (fst (dbCreateTask e data w)) = js_or (data ''connection_id'') JNull"
  "title (fst (dbCreateTask e data w)) = js_or (data ''title'') (JStr [])"
  "description (fst (dbCreateTask e data w)) = js_or (data ''description'') (JStr [])"
  "completed (fst (dbCreateTask e data w)) = flag (data ''completed'')"
  "source_url (fst (dbCreateTask e data w)) = js_or (data ''source_url'') JNull"
  by (simp_all add: dbCreateTask_def localNow_def Let_def)

lemma pull_data_props:
  "pull_data conn todo ''source'' = JStr ''notion''"
  "pull_data conn todo ''source_id'' = JStr (r_source_id todo)"
  "pull_data conn todo ''connection_id'' = JNum (int (c_id conn))"
  "pull_data conn todo ''title'' = JStr (r_title todo)"
  "pull_data conn todo ''description'' = JStr (r_description todo)"
  "pull_data conn todo ''completed'' = JBool (r_completed todo)"
  "pull_data conn todo ''source_url'' = JStr (r_source_url todo)"
  by (simp_all add: pull_data_def todo_obj_def)

lemma pull_todo_eq:
  "pull_todo e conn m todo (rids, w) =
     (rids @ [JStr (r_source_id todo)],
      case m (JStr (r_source_id todo)) of
        Some existing \<Rightarrow> snd (dbUpdateTask e (t_id existing) (pull_fields todo) w)
      | None \<Rightarrow> snd (dbCreateTask e (pull_data conn todo) w))"
  by (simp add: pull_todo_def split: option.splits)

lemma fst_fold_pull_todo:
  "fst (fold (pull_todo e conn m) todos st) = fst st @ remote_ids todos"
proof (induction todos arbitrary: st)
  case Nil
  then show ?case by (simp add: remote_ids_def)
next
  case (Cons todo todos)
  then show ?case by (cases st) (simp add: pull_todo_eq remote_ids_def)
qed

lemma fst_pulled: "fst (pulled e conn todos w) = remote_ids todos"
  by (simp add: pulled_def fst_fold_pull_todo)

lemma tasks_fold_remove_deleted:
  "tasks (fold (remove_deleted conn rids) ls w) =
     filter (\<lambda>u. t_id u \<notin> t_id ` {l \<in> set ls. owned_by conn l \<and> source_id l \<notin> set rids})
       (tasks w)"
proof (induction ls arbitrary: w)
  case Nil
  then show ?case by simp
next
  case (Cons l ls)
  have "tasks (remove_deleted conn rids l w) =
          filter (\<lambda>u. \<not> (owned_by conn l \<and> source_id l \<notin> set rids \<and> t_id u = t_id l)) (tasks w)"
    by (auto simp: remove_deleted_def owned_by_def dbDeleteTask_tasks intro: filter_cong)
  with Cons show ?case
    by (auto intro!: filter_cong)
qed

subsection \<open>The invariant of the pull\<close>

lemma same_identity_refl: "same_identity t t"
  by (simp add: same_identity_def)

lemma same_identity_trans: "same_identity t u \<Longrightarrow> same_identity u v \<Longrightarrow> same_identity t v"
  by (simp add: same_identity_def)

lemma keys_ok_unique:
  "keys_ok w \<Longrightarrow> t \<in> set (tasks w) \<Longrightarrow> u \<in> set (tasks w) \<Longrightarrow> t_id t = t_id u \<Longrightarrow> t = u"
  by (auto simp: keys_ok_def distinct_map inj_on_def)

lemma kept_refl: "kept t t"
  by (simp add: kept_def same_identity_refl)

lemma mid_start: "keys_ok w \<Longrightarrow> mid conn todos w w"
  using kept_refl by (fastforce simp: mid_def descends_def)

lemma kept_written:
  "kept t u \<Longrightarrow> source t = JStr ''notion'' \<Longrightarrow> kept t (written flds now u)"
  using written_identity[of u flds now]
  by (auto simp: kept_def not_notion_def intro: same_identity_trans)

lemma kept_notion: "kept t u \<Longrightarrow> source u = source t \<and> t_id u = t_id t"
  by (simp add: kept_def same_identity_def)

lemma filter_idb_put:
  assumes "\<not> P t'" and "\<forall>u\<in>set ts. t_id u = t_id t' \<longrightarrow> \<not> P u"
  shows "filter P (idb_put t' ts) = filter P ts"
  using assms by (induction ts) (auto simp: idb_put_def)

lemma mid_update:
  assumes k0: "keys_ok w0" and m: "mid conn todos w0 w"
    and ex: "ex \<in> set (tasks w0)" and n: "source ex = JStr ''notion''"
  shows "mid conn todos w0 (snd (dbUpdateTask e (t_id ex) flds w))"
proof (cases "dbGetTask (t_id ex) w")
  case None
  with m show ?thesis by (simp add: dbUpdateTask_world)
next
  case (Some found)
  define t' where "t' = written flds (clock e (ticks w)) found"
  have w': "snd (dbUpdateTask e (t_id ex) flds w)
              = w\<lparr>ticks := Suc (ticks w), tasks := idb_put t' (tasks w)\<rparr>"
    using Some by (simp add: dbUpdateTask_world t'_def)
  have f: "found \<in> set (tasks w)" "t_id found = t_id ex"
    using dbGetTask_Some[OF Some] by simp_all
  have kw: "keys_ok w" using m by (simp add: mid_def)
  have id': "t_id t' = t_id ex"
    using written_identity[of found flds "clock e (ticks w)"] f
    by (simp add: t'_def same_identity_def)
  have old_key: "t_id ex \<le> task_key w0"
    using k0 ex by (simp add: keys_ok_def)
  have at_key: "kept ex u" if "u \<in> set (tasks w)" "t_id u = t_id ex" for u
  proof -
    from m that(1) have "descends conn todos w0 u" by (simp add: mid_def)
    then show ?thesis
    proof (unfold descends_def, elim disjE bexE)
      fix t assume t: "t \<in> set (tasks w0)" "kept t u"
      then have "t_id t = t_id ex" using that(2) by (simp add: kept_def same_identity_def)
      with k0 t(1) ex have "t = ex" by (rule keys_ok_unique)
      with t(2) show ?thesis by simp
    next
      assume "pulled_new conn todos w0 u"
      with old_key that(2) show ?thesis by (simp add: pulled_new_def)
    qed
  qed
  have src: "source u = JStr ''notion''" if "u \<in> set (tasks w)" "t_id u = t_id ex" for u
    using at_key[OF that] n by (auto dest: kept_notion)
  have t'_desc: "kept ex t'"
    using at_key[OF f] n by (auto simp: t'_def intro: kept_written)
  have src': "source t' = JStr ''notion''"
    using t'_desc n by (auto dest: kept_notion)
  have 1: "keys_ok (w\<lparr>ticks := Suc (ticks w), tasks := idb_put t' (tasks w)\<rparr>)"
  proof -
    have "t_id u \<le> task_key w" if "u \<in> set (idb_put t' (tasks w))" for u
    proof -
      from that set_idb_put have "u = t' \<or> u \<in> set (tasks w)" by fastforce
      with kw f id' show ?thesis by (auto simp: keys_ok_def)
    qed
    with kw show ?thesis by (simp add: keys_ok_def map_t_id_idb_put)
  qed
  have 3: "descends conn todos w0 u" if "u \<in> set (idb_put t' (tasks w))" for u
  proof -
    from that set_idb_put have "u = t' \<or> u \<in> set (tasks w)" by fastforce
    then show ?thesis
    proof
      assume "u = t'"
      with t'_desc ex show ?thesis by (auto simp: descends_def)
    next
      assume "u \<in> set (tasks w)"
      with m show ?thesis by (simp add: mid_def)
    qed
  qed
  have 4: "\<exists>u\<in>set (idb_put t' (tasks w)). kept t u" if "t \<in> set (tasks w0)" for t
  proof -
    from m that obtain u where u: "u \<in> set (tasks w)" "kept t u" by (auto simp: mid_def)
    show ?thesis
    proof (cases "t_id u = t_id ex")
      case True
      then have "t_id t = t_id ex" using u(2) by (simp add: kept_def same_identity_def)
      with k0 that ex have "t = ex" by (rule keys_ok_unique)
      moreover have "u = found" using kw u(1) f True by (auto intro: keys_ok_unique)
      ultimately have "kept t t'" using u(2) n by (simp add: t'_def kept_written)
      moreover have "t' \<in> set (idb_put t' (tasks w))"
        using f id' by (auto simp: idb_put_def image_iff)
      ultimately show ?thesis by blast
    next
      case False
      with u(1) id' have "u \<in> set (idb_put t' (tasks w))"
        by (auto simp: idb_put_def image_iff)
      with u(2) show ?thesis by blast
    qed
  qed
  have 5: "filter not_notion (idb_put t' (tasks w)) = filter not_notion (tasks w)"
    by (rule filter_idb_put) (use src src' id' in \<open>auto simp: not_notion_def\<close>)
  show ?thesis
    using m 1 3 4 5 by (simp add: w' mid_def)
qed

lemma mid_create:
  assumes m: "mid conn todos w0 w" and t: "todo \<in> set todos"
  shows "mid conn todos w0 (snd (dbCreateTask e (pull_data conn todo) w))"
proof -
  define n where "n = fst (dbCreateTask e (pull_data conn todo) w)"
  have w': "snd (dbCreateTask e (pull_data conn todo) w)
              = w\<lparr>ticks := Suc (ticks w), tasks := tasks w @ [n], task_key := Suc (task_key w)\<rparr>"
    by (simp add: n_def dbCreateTask_world)
  have nid: "t_id n = Suc (task_key w)"
    and nsrc: "source n = JStr ''notion''"
    and ncon: "connection_id n = js_or (JNum (int (c_id conn))) JNull"
    by (simp_all add: n_def dbCreateTask_record pull_data_props js_or_def)
  have nfrom: "created_from todo n"
    by (auto simp: created_from_def n_def dbCreateTask_record pull_data_props js_or_def flag_def)
  have kw: "keys_ok w" and le: "task_key w0 \<le> task_key w" using m by (simp_all add: mid_def)
  have new: "pulled_new conn todos w0 n"
    using le t nid nsrc ncon nfrom by (auto simp: pulled_new_def)
  have 1: "keys_ok (w\<lparr>ticks := Suc (ticks w), tasks := tasks w @ [n], task_key := Suc (task_key w)\<rparr>)"
    using kw nid by (fastforce simp: keys_ok_def)
  show ?thesis
    using m 1 new nsrc le by (auto simp: w' mid_def descends_def not_notion_def)
qed

lemma mid_fold_pull:
  assumes k0: "keys_ok w0" and m: "mid conn T w0 w" and sub: "set todos \<subseteq> set T"
  shows "mid conn T w0 (snd (fold (pull_todo e conn (local_index w0)) todos (rids, w)))"
  using m sub
proof (induction todos arbitrary: rids w)
  case Nil
  then show ?case by simp
next
  case (Cons todo todos)
  have "mid conn T w0 (snd (pull_todo e conn (local_index w0) todo (rids, w)))"
  proof (cases "local_index w0 (JStr (r_source_id todo))")
    case None
    with Cons.prems show ?thesis by (simp add: pull_todo_eq mid_create)
  next
    case (Some ex)
    from local_index_Some[OF Some] k0 Cons.prems(1) show ?thesis
      by (simp add: pull_todo_eq Some mid_update)
  qed
  with Cons.IH[of "snd (pull_todo e conn (local_index w0) todo (rids, w))"
                  "fst (pull_todo e conn (local_index w0) todo (rids, w))"] Cons.prems(2)
  show ?case by simp
qed

lemma mid_pulled:
  assumes "keys_ok w"
  shows "mid conn todos w (snd (pulled e conn todos w))"
proof -
  have "keys_ok (fetched e conn w)"
    using assms by (simp add: keys_ok_def fetched_def pushed_def fold_push_task_other)
  moreover have "tasks (fetched e conn w) = tasks w" "task_key (fetched e conn w) = task_key w"
    by (simp_all add: fetched_def pushed_def fold_push_task_other)
  ultimately have "mid conn todos w (fetched e conn w)"
    using mid_start[OF assms, of conn todos] by (simp add: mid_def)
  from mid_fold_pull[OF assms this, of todos] show ?thesis
    by (simp add: pulled_def)
qed

subsection \<open>The tasks after \<^verbatim>\<open>syncConnection\<close>\<close>

lemma tasks_swept:
  "tasks (swept e conn todos w) =
     filter (\<lambda>u. t_id u \<notin> orphan_keys conn todos w) (tasks (snd (pulled e conn todos w)))"
  by (simp add: swept_def tasks_fold_remove_deleted fst_pulled set_notion_tasks orphan_keys_def
        orphan_def conj_ac cong: conj_cong)

lemma tasks_stamped: "tasks (stamped e conn todos w) = tasks (swept e conn todos w)"
  by (simp add: stamped_def dbUpdateConnection_other localNow_def)

lemma tasks_syncConnection_resolved:
  "fetch_reply e conn w = Resolved todos \<Longrightarrow>
   tasks (snd (syncConnection e conn w)) =
     filter (\<lambda>u. t_id u \<notin> orphan_keys conn todos w) (tasks (snd (pulled e conn todos w)))"
  by (simp add: syncConnection_resolved tasks_stamped tasks_swept)

lemma tasks_syncConnection_rejected:
  "fetch_reply e conn w = Rejected msg \<Longrightarrow> tasks (snd (syncConnection e conn w)) = tasks w"
  by (simp add: syncConnection_rejected fetched_def pushed_def fold_push_task_other)

lemma orphan_keys_notion:
  assumes "keys_ok w" and "t \<in> set (tasks w)" and "t_id t \<in> orphan_keys conn todos w"
  shows "source t = JStr ''notion'' \<and> orphan conn todos t"
proof -
  from assms(3) obtain l where l: "l \<in> set (tasks w)" "source l = JStr ''notion''"
    "orphan conn todos l" "t_id t = t_id l"
    by (auto simp: orphan_keys_def)
  from keys_ok_unique[OF assms(1,2) l(1,4)] l show ?thesis by simp
qed

lemma find_distinct_key:
  "distinct (map t_id ts) \<Longrightarrow> u \<in> set ts \<Longrightarrow> find (\<lambda>x. t_id x = t_id u) ts = Some u"
  by (induction ts) (auto simp: image_iff)

lemma filter_local:
  "filter (\<lambda>t. source t = JStr ''local'') ts
     = filter (\<lambda>t. source t = JStr ''local'') (filter not_notion ts)"
  by (auto simp: not_notion_def intro: filter_cong)

subsection \<open>The record under one key during the pull\<close>

lemma find_append_Some:
  "find P xs = Some x \<Longrightarrow> find P (xs @ ys) = Some x"
  by (induction xs) (auto split: if_splits)

lemma dbGetTask_update_other:
  "j \<noteq> i \<Longrightarrow> dbGetTask j (snd (dbUpdateTask e i flds w)) = dbGetTask j w"
  using written_identity[of _ flds "clock e (ticks w)"]
  by (auto simp: dbUpdateTask_world dbGetTask_def find_idb_put_other same_identity_def
        split: option.splits dest!: find_Some_iff[THEN iffD1])

lemma dbGetTask_update_same:
  "dbGetTask i w = Some t \<Longrightarrow>
   dbGetTask i (snd (dbUpdateTask e i flds w)) = Some (written flds (clock e (ticks w)) t)"
  using written_identity[of t flds "clock e (ticks w)"] dbGetTask_Some[of i w t]
  by (simp add: dbUpdateTask_world dbGetTask_def find_idb_put_same same_identity_def)

lemma dbGetTask_create:
  "dbGetTask i w = Some t \<Longrightarrow> dbGetTask i (snd (dbCreateTask e data w)) = Some t"
  by (simp add: dbCreateTask_world dbGetTask_def find_append_Some)

lemma fold_pull_keeps_record:
  assumes "dbGetTask i w = Some t" and "\<forall>todo\<in>set todos. \<not> targets m todo i"
  shows "dbGetTask i (snd (fold (pull_todo e conn m) todos (rids, w))) = Some t"
  using assms
proof (induction todos arbitrary: rids w)
  case Nil
  then show ?case by simp
next
  case (Cons todo todos)
  have "dbGetTask i (snd (pull_todo e conn m todo (rids, w))) = Some t"
  proof (cases "m (JStr (r_source_id todo))")
    case None
    with Cons.prems(1) show ?thesis by (simp add: pull_todo_eq dbGetTask_create)
  next
    case (Some ex)
    with Cons.prems(2) have "i \<noteq> t_id ex" by (auto simp: targets_def)
    with Some Cons.prems(1) show ?thesis by (simp add: pull_todo_eq dbGetTask_update_other)
  qed
  with Cons.IH[of "snd (pull_todo e conn m todo (rids, w))"
                  "fst (pull_todo e conn m todo (rids, w))"] Cons.prems(2)
  show ?case by simp
qed

lemma fold_pull_writes_record:
  assumes "dbGetTask i w = Some t"
    and "todos = before @ todo # after"
    and "targets m todo i"
    and "\<forall>r\<in>set before \<union> set after. \<not> targets m r i"
  shows "\<exists>now. dbGetTask i (snd (fold (pull_todo e conn m) todos (rids, w)))
                 = Some (written (pull_fields todo) now t)"
proof -
  let ?s1 = "fold (pull_todo e conn m) before (rids, w)"
  let ?s2 = "pull_todo e conn m todo ?s1"
  have 1: "dbGetTask i (snd ?s1) = Some t"
    using fold_pull_keeps_record[OF assms(1), of before m e conn rids] assms(4) by simp
  from assms(3) obtain ex where ex: "m (JStr (r_source_id todo)) = Some ex" "t_id ex = i"
    by (auto simp: targets_def)
  have 2: "dbGetTask i (snd ?s2)
             = Some (written (pull_fields todo) (clock e (ticks (snd ?s1))) t)"
    using ex dbGetTask_update_same[OF 1, of e "pull_fields todo"]
    by (cases ?s1) (simp add: pull_todo_eq)
  have "dbGetTask i (snd (fold (pull_todo e conn m) after (fst ?s2, snd ?s2)))
          = Some (written (pull_fields todo) (clock e (ticks (snd ?s1))) t)"
    using fold_pull_keeps_record[OF 2, of after m e conn "fst ?s2"] assms(4) by simp
  then show ?thesis
    by (auto simp: assms(2))
qed

lemma fold_pull_keeps_key:
  assumes "dbGetTask i w \<noteq> None"
  shows "dbGetTask i (snd (fold (pull_todo e conn m) todos (rids, w))) \<noteq> None"
  using assms
proof (induction todos arbitrary: rids w)
  case Nil
  then show ?case by simp
next
  case (Cons todo todos)
  from Cons.prems obtain t where t: "dbGetTask i w = Some t" by auto
  have "dbGetTask i (snd (pull_todo e conn m todo (rids, w))) \<noteq> None"
  proof (cases "m (JStr (r_source_id todo))")
    case None
    with t show ?thesis by (simp add: pull_todo_eq dbGetTask_create)
  next
    case (Some ex)
    show ?thesis
    proof (cases "t_id ex = i")
      case True
      with Some t show ?thesis by (simp add: pull_todo_eq dbGetTask_update_same)
    next
      case False
      then have "i \<noteq> t_id ex" by simp
      with Some t show ?thesis by (simp add: pull_todo_eq dbGetTask_update_other)
    qed
  qed
  from Cons.IH[OF this, of "fst (pull_todo e conn m todo (rids, w))"]
  show ?case by simp
qed

lemma fold_pull_last_write:
  assumes "dbGetTask i w \<noteq> None"
    and "todos = before @ todo # after"
    and "targets m todo i"
    and "\<forall>r\<in>set after. \<not> targets m r i"
  shows "\<exists>now t1. dbGetTask i (snd (fold (pull_todo e conn m) todos (rids, w)))
                    = Some (written (pull_fields todo) now t1)"
proof -
  let ?s1 = "fold (pull_todo e conn m) before (rids, w)"
  let ?s2 = "pull_todo e conn m todo ?s1"
  from fold_pull_keeps_key[OF assms(1), of e conn m before rids]
  obtain t1 where 1: "dbGetTask i (snd ?s1) = Some t1" by auto
  from assms(3) obtain ex where ex: "m (JStr (r_source_id todo)) = Some ex" "t_id ex = i"
    by (auto simp: targets_def)
  have 2: "dbGetTask i (snd ?s2)
             = Some (written (pull_fields todo) (clock e (ticks (snd ?s1))) t1)"
    using ex dbGetTask_update_same[OF 1, of e "pull_fields todo"]
    by (cases ?s1) (simp add: pull_todo_eq)
  have "dbGetTask i (snd (fold (pull_todo e conn m) after (fst ?s2, snd ?s2)))
          = Some (written (pull_fields todo) (clock e (ticks (snd ?s1))) t1)"
    using fold_pull_keeps_record[OF 2, of after m e conn "fst ?s2"] assms(4) by simp
  then show ?thesis
    by (auto simp: assms(2))
qed

lemma written_pull_fields:
  "title (written (pull_fields todo) now t) = JStr (r_title todo)"
  "description (written (pull_fields todo) now t) = JStr (r_description todo)"
  "completed (written (pull_fields todo) now t) = JNum (if r_completed todo then 1 else 0)"
  "source_url (written (pull_fields todo) now t) = JStr (r_source_url todo)"
  "due_date (written (pull_fields todo) now t) = due_date t"
  by (simp_all add: written_def allowed_def update_field_def set_prop_def pull_fields_def
        no_props_def flag_def)

lemma find_filter_key:
  "i \<notin> D \<Longrightarrow> find (\<lambda>x. t_id x = i) (filter (\<lambda>u. t_id u \<notin> D) ts) = find (\<lambda>x. t_id x = i) ts"
  by (induction ts) auto

lemma tasks_fetched: "tasks (fetched e conn w) = tasks w"
  by (simp add: fetched_def pushed_def fold_push_task_other)

lemma task_key_syncConnection_resolved:
  "fetch_reply e conn w = Resolved todos \<Longrightarrow>
   task_key (snd (syncConnection e conn w)) = task_key (snd (pulled e conn todos w))"
  by (simp add: syncConnection_resolved stamped_def dbUpdateConnection_other localNow_def
        swept_def fold_remove_deleted_other)

lemma orphan_keys_bound:
  "keys_ok w \<Longrightarrow> i \<in> orphan_keys conn todos w \<Longrightarrow> i \<le> task_key w"
  by (auto simp: orphan_keys_def keys_ok_def)

lemma keys_ok_syncConnection_resolved:
  assumes "keys_ok w" and "fetch_reply e conn w = Resolved todos"
  shows "keys_ok (snd (syncConnection e conn w))"
proof -
  have "keys_ok (snd (pulled e conn todos w))"
    using mid_pulled[OF assms(1), of conn todos e] by (simp add: mid_def)
  then show ?thesis
    by (simp add: keys_ok_def tasks_syncConnection_resolved[OF assms(2)]
          task_key_syncConnection_resolved[OF assms(2)] distinct_map_filter)
qed

lemma keys_ok_syncConnection:
  assumes "keys_ok w"
  shows "keys_ok (snd (syncConnection e conn w))"
proof (cases "fetch_reply e conn w")
  case (Rejected msg)
  with assms show ?thesis
    by (simp add: keys_ok_def syncConnection_rejected fetched_def pushed_def
          fold_push_task_other)
next
  case (Resolved todos)
  with assms show ?thesis by (rule keys_ok_syncConnection_resolved)
qed

subsection \<open>Every fetched to-do has a local task after the call\<close>

lemma find_append_None:
  "find P xs = None \<Longrightarrow> find P (xs @ ys) = find P ys"
  by (induction xs) (auto split: if_splits)

lemma dbGetTask_created:
  assumes "keys_ok w"
  shows "dbGetTask (Suc (task_key w)) (snd (dbCreateTask e data w)) = Some (fst (dbCreateTask e data w))"
proof -
  have "find (\<lambda>t. t_id t = Suc (task_key w)) (tasks w) = None"
    using assms by (fastforce simp: keys_ok_def find_None_iff)
  then show ?thesis
    by (simp add: dbCreateTask_world dbGetTask_def find_append_None dbCreateTask_record)
qed

lemma fold_pull_creates_record:
  assumes k: "keys_ok w0" and m: "mid conn T w0 w" and sub: "set todos \<subseteq> set T"
    and t: "todo \<in> set todos" and none: "local_index w0 (JStr (r_source_id todo)) = None"
  shows "\<exists>n\<in>set (tasks (snd (fold (pull_todo e conn (local_index w0)) todos (rids, w)))).
           task_key w0 < t_id n \<and> source n = JStr ''notion'' \<and>
           source_id n = js_or (JStr (r_source_id todo)) JNull"
proof -
  let ?m = "local_index w0"
  from t obtain before after where sp: "todos = before @ todo # after"
    by (auto dest: split_list)
  let ?s1 = "fold (pull_todo e conn ?m) before (rids, w)"
  let ?w1 = "snd ?s1"
  let ?n = "fst (dbCreateTask e (pull_data conn todo) ?w1)"
  let ?w2 = "snd (dbCreateTask e (pull_data conn todo) ?w1)"
  have m1: "mid conn T w0 ?w1"
    using mid_fold_pull[OF k m, of before e rids] sub sp by simp
  then have k1: "keys_ok ?w1" and le: "task_key w0 \<le> task_key ?w1"
    by (simp_all add: mid_def)
  have step: "pull_todo e conn ?m todo ?s1 = (fst ?s1 @ [JStr (r_source_id todo)], ?w2)"
    using none by (cases ?s1) (simp add: pull_todo_eq)
  have g: "dbGetTask (Suc (task_key ?w1)) ?w2 = Some ?n"
    using k1 by (rule dbGetTask_created)
  have far: "\<not> targets ?m x (Suc (task_key ?w1))" for x
  proof
    assume "targets ?m x (Suc (task_key ?w1))"
    then obtain ex where ex: "?m (JStr (r_source_id x)) = Some ex" "t_id ex = Suc (task_key ?w1)"
      by (auto simp: targets_def)
    from local_index_Some[OF ex(1)] k have "t_id ex \<le> task_key w0"
      by (simp add: keys_ok_def)
    with ex(2) le show False by simp
  qed
  have "dbGetTask (Suc (task_key ?w1))
          (snd (fold (pull_todo e conn ?m) after (fst ?s1 @ [JStr (r_source_id todo)], ?w2)))
        = Some ?n"
    using fold_pull_keeps_record[OF g, of after ?m e conn] far by simp
  then have "dbGetTask (Suc (task_key ?w1)) (snd (fold (pull_todo e conn ?m) todos (rids, w)))
               = Some ?n"
    by (simp add: sp step)
  from dbGetTask_Some[OF this] le show ?thesis
    by (auto simp: dbCreateTask_record pull_data_props js_or_def intro!: bexI[of _ ?n])
qed

lemma syncConnection_covers_fetched:
  assumes k: "keys_ok w" and f: "fetch_reply e conn w = Resolved todos"
    and t: "todo \<in> set todos" and ne: "r_source_id todo \<noteq> []"
  shows "\<exists>u\<in>set (tasks (snd (syncConnection e conn w))).
           source u = JStr ''notion'' \<and> source_id u = JStr (r_source_id todo)"
proof -
  let ?w3 = "snd (pulled e conn todos w)"
  have m3: "mid conn todos w ?w3" using k by (rule mid_pulled)
  have ts: "tasks (snd (syncConnection e conn w))
              = filter (\<lambda>u. t_id u \<notin> orphan_keys conn todos w) (tasks ?w3)"
    using f by (rule tasks_syncConnection_resolved)
  have seen: "JStr (r_source_id todo) \<in> set (remote_ids todos)"
    using t by (auto simp: remote_ids_def)
  show ?thesis
  proof (cases "local_index w (JStr (r_source_id todo))")
    case None
    have mf: "mid conn todos w (fetched e conn w)"
      using mid_start[OF k, of conn todos] k
      by (simp add: mid_def keys_ok_def tasks_fetched fetched_def pushed_def fold_push_task_other)
    from fold_pull_creates_record[OF k mf subset_refl t None, of e "[]"]
    obtain n where n: "n \<in> set (tasks ?w3)" "task_key w < t_id n" "source n = JStr ''notion''"
        "source_id n = js_or (JStr (r_source_id todo)) JNull"
      by (auto simp: pulled_def)
    have "t_id n \<notin> orphan_keys conn todos w"
      using orphan_keys_bound[OF k, of "t_id n" conn todos] n(2) by auto
    with n ne show ?thesis
      by (auto simp: ts js_or_def intro!: bexI[of _ n])
  next
    case (Some ex)
    from local_index_Some[OF Some]
    have ex: "ex \<in> set (tasks w)" "source ex = JStr ''notion''"
        "source_id ex = JStr (r_source_id todo)"
      by simp_all
    from m3 ex(1) obtain u where u: "u \<in> set (tasks ?w3)" "kept ex u"
      by (auto simp: mid_def)
    have "t_id ex \<notin> orphan_keys conn todos w"
      using orphan_keys_notion[OF k ex(1)] ex(3) seen by (auto simp: orphan_def)
    with u ex show ?thesis
      by (auto simp: ts kept_def same_identity_def intro!: bexI[of _ u])
  qed
qed

lemma orphan_keys_member:
  "t \<in> set (tasks w) \<Longrightarrow> source t = JStr ''notion'' \<Longrightarrow> orphan conn todos t \<Longrightarrow>
   t_id t \<in> orphan_keys conn todos w"
  unfolding orphan_keys_def by blast

lemma syncConnection_leaves_no_orphan:
  assumes k: "keys_ok w" and f: "fetch_reply e conn w = Resolved todos"
  shows "orphan_keys conn todos (snd (syncConnection e conn w)) = {}"
proof -
  let ?w3 = "snd (pulled e conn todos w)"
  have m3: "mid conn todos w ?w3" using k by (rule mid_pulled)
  have ts: "tasks (snd (syncConnection e conn w))
              = filter (\<lambda>u. t_id u \<notin> orphan_keys conn todos w) (tasks ?w3)"
    using f by (rule tasks_syncConnection_resolved)
  have "\<not> orphan conn todos u"
    if u: "u \<in> set (tasks ?w3)" "t_id u \<notin> orphan_keys conn todos w" "source u = JStr ''notion''"
    for u
  proof
    assume o: "orphan conn todos u"
    from m3 u(1) have "descends conn todos w u" by (simp add: mid_def)
    then show False
    proof (unfold descends_def, elim disjE bexE)
      fix t assume t: "t \<in> set (tasks w)" "kept t u"
      then have "source t = JStr ''notion''" "orphan conn todos t" "t_id t = t_id u"
        using o u(3) by (simp_all add: kept_def same_identity_def orphan_def owned_by_def)
      with t(1) have "t_id u \<in> orphan_keys conn todos w"
        using orphan_keys_member[of t w conn todos] by simp
      with u(2) show False by simp
    next
      assume "pulled_new conn todos w u"
      then obtain todo where "todo \<in> set todos" "source_id u = js_or (JStr (r_source_id todo)) JNull"
        by (auto simp: pulled_new_def created_from_def)
      with o show False
        by (auto simp: orphan_def owned_by_def js_or_def remote_ids_def split: if_splits)
    qed
  qed
  then show ?thesis
    by (auto simp: orphan_keys_def ts)
qed

subsection \<open>A pull in which every to-do has a local task\<close>

lemma list_all2_same_identity_refl: "list_all2 same_identity ts ts"
  by (simp add: list_all2_refl same_identity_refl)

lemma list_all2_idb_put:
  assumes "distinct (map t_id ts)" and "found \<in> set ts"
  shows "list_all2 same_identity ts (idb_put (written flds now found) ts)"
proof -
  have "same_identity u (if t_id u = t_id (written flds now found) then written flds now found else u)"
    if "u \<in> set ts" for u
  proof (cases "t_id u = t_id (written flds now found)")
    case True
    then have "t_id u = t_id found"
      using written_identity[of found flds now] by (simp add: same_identity_def)
    with assms that have "u = found" by (auto simp: distinct_map inj_on_def)
    with True show ?thesis by (simp add: written_identity)
  next
    case False
    then show ?thesis by (simp add: same_identity_refl)
  qed
  then show ?thesis
    by (simp add: idb_put_def list_all2_map2 list_all2_same)
qed

lemma dbUpdateTask_same_identity:
  assumes "distinct (map t_id (tasks w))"
  shows "list_all2 same_identity (tasks w) (tasks (snd (dbUpdateTask e i flds w)))"
proof (cases "dbGetTask i w")
  case None
  then show ?thesis by (simp add: dbUpdateTask_world list_all2_same_identity_refl)
next
  case (Some found)
  with list_all2_idb_put[OF assms, of found flds "clock e (ticks w)"] dbGetTask_Some[OF Some]
  show ?thesis by (simp add: dbUpdateTask_world)
qed

lemma fold_pull_all_matched:
  assumes "\<forall>todo\<in>set todos. m (JStr (r_source_id todo)) \<noteq> None"
    and "distinct (map t_id (tasks w))"
  shows "map t_id (tasks (snd (fold (pull_todo e conn m) todos (rids, w)))) = map t_id (tasks w) \<and>
         task_key (snd (fold (pull_todo e conn m) todos (rids, w))) = task_key w \<and>
         list_all2 same_identity (tasks w) (tasks (snd (fold (pull_todo e conn m) todos (rids, w))))"
  using assms
proof (induction todos arbitrary: rids w)
  case Nil
  then show ?case by (simp add: list_all2_same_identity_refl)
next
  case (Cons todo todos)
  from Cons.prems(1) obtain ex where ex: "m (JStr (r_source_id todo)) = Some ex" by auto
  let ?w' = "snd (dbUpdateTask e (t_id ex) (pull_fields todo) w)"
  have step: "pull_todo e conn m todo (rids, w) = (rids @ [JStr (r_source_id todo)], ?w')"
    using ex by (simp add: pull_todo_eq)
  have ids: "map t_id (tasks ?w') = map t_id (tasks w)" by (rule dbUpdateTask_ids)
  have key: "task_key ?w' = task_key w" by (simp add: dbUpdateTask_other)
  have same: "list_all2 same_identity (tasks w) (tasks ?w')"
    using Cons.prems(2) by (rule dbUpdateTask_same_identity)
  have d': "distinct (map t_id (tasks ?w'))" using Cons.prems(2) ids by simp
  from Cons.IH[of ?w' "rids @ [JStr (r_source_id todo)]"] Cons.prems(1) d'
  have ih: "map t_id (tasks (snd (fold (pull_todo e conn m) todos (rids @ [JStr (r_source_id todo)], ?w'))))
              = map t_id (tasks ?w')"
    "task_key (snd (fold (pull_todo e conn m) todos (rids @ [JStr (r_source_id todo)], ?w')))
              = task_key ?w'"
    "list_all2 same_identity (tasks ?w')
       (tasks (snd (fold (pull_todo e conn m) todos (rids @ [JStr (r_source_id todo)], ?w'))))"
    by simp_all
  from list_all2_trans[of same_identity same_identity same_identity, OF _ same ih(3)]
  have "list_all2 same_identity (tasks w)
       (tasks (snd (fold (pull_todo e conn m) todos (rids @ [JStr (r_source_id todo)], ?w'))))"
    using same_identity_trans by blast
  with ih(1,2) ids key show ?case
    by (simp add: step)
qed

lemma task_key_fetched: "task_key (fetched e conn w) = task_key w"
  by (simp add: fetched_def pushed_def fold_push_task_other)

subsection \<open>Every handler preserves the invariant of the store\<close>

lemma task_ok_identity: "same_identity t u \<Longrightarrow> task_ok t \<Longrightarrow> task_ok u"
  by (simp add: task_ok_def same_identity_def)

lemma push_updates_store:
  "tasks (snd (push_updates e tok t updates w)) = tasks w \<and>
   task_key (snd (push_updates e tok t updates w)) = task_key w \<and>
   conns (snd (push_updates e tok t updates w)) = conns w"
  by (simp add: push_updates_def notionUpdateTodoChecked_def notionUpdateTodoText_def
        notion_call_def split: reply.splits)

lemma pushTaskToNotion_store:
  "tasks (snd (pushTaskToNotion e t updates w)) = tasks w \<and>
   task_key (snd (pushTaskToNotion e t updates w)) = task_key w \<and>
   conns (snd (pushTaskToNotion e t updates w)) = conns w"
proof (cases "source t \<noteq> JStr ''notion'' \<or> \<not> truthy (source_id t)")
  case True
  then show ?thesis by (auto simp: pushTaskToNotion_def)
next
  case False
  show ?thesis
  proof (cases "find (\<lambda>c. JNum (int (c_id c)) = connection_id t \<and> truthy (enabled c))
                  (dbGetAllConnections w)")
    case None
    with False show ?thesis by (simp add: pushTaskToNotion_def)
  next
    case (Some conn)
    obtain r w' where p: "push_updates e (token conn) t updates w = (r, w')"
      by (cases "push_updates e (token conn) t updates w")
    have "tasks w' = tasks w \<and> task_key w' = task_key w \<and> conns w' = conns w"
      using push_updates_store[of e "token conn" t updates w] p by simp
    with False Some p show ?thesis
      by (cases r) (simp_all add: pushTaskToNotion_def log_line_def)
  qed
qed

lemma store_ok_cong:
  "store_ok w \<Longrightarrow> tasks w' = tasks w \<Longrightarrow> task_key w' = task_key w \<Longrightarrow> conns w' = conns w \<Longrightarrow>
   store_ok w'"
  by (simp add: store_ok_def keys_ok_def)

lemma store_ok_push: "store_ok w \<Longrightarrow> store_ok (snd (pushTaskToNotion e t updates w))"
  using pushTaskToNotion_store[of e t updates w] by (auto intro: store_ok_cong)

lemma store_ok_update:
  assumes "store_ok w"
  shows "store_ok (snd (dbUpdateTask e i flds w))"
proof (cases "dbGetTask i w")
  case None
  with assms show ?thesis by (simp add: dbUpdateTask_world)
next
  case (Some found)
  let ?t' = "written flds (clock e (ticks w)) found"
  have f: "found \<in> set (tasks w)" using dbGetTask_Some[OF Some] by simp
  have ok': "task_ok ?t'"
    using assms f written_identity[of found flds "clock e (ticks w)"]
    by (auto simp: store_ok_def intro: task_ok_identity)
  have "task_ok u \<and> t_id u \<le> task_key w" if "u \<in> set (idb_put ?t' (tasks w))" for u
  proof -
    from that set_idb_put have "u = ?t' \<or> u \<in> set (tasks w)" by fastforce
    moreover have "t_id ?t' = t_id found"
      using written_identity[of found flds "clock e (ticks w)"] by (simp add: same_identity_def)
    ultimately show ?thesis
      using assms f ok' by (auto simp: store_ok_def keys_ok_def)
  qed
  with assms Some show ?thesis
    by (simp add: dbUpdateTask_world store_ok_def keys_ok_def map_t_id_idb_put)
qed

lemma store_ok_delete: "store_ok w \<Longrightarrow> store_ok (snd (dbDeleteTask i w))"
proof -
  assume "store_ok w"
  moreover have "task_key (snd (dbDeleteTask i w)) = task_key w"
    "conns (snd (dbDeleteTask i w)) = conns w"
    by (simp_all add: dbDeleteTask_other)
  ultimately show ?thesis
    by (simp add: store_ok_def keys_ok_def dbDeleteTask_tasks distinct_map_filter)
qed

lemma form_body_props:
  "form_body ttl desc due ''source'' = JUndefined"
  "form_body ttl desc due ''source_id'' = JUndefined"
  "form_body ttl desc due ''connection_id'' = JUndefined"
  by (simp_all add: form_body_def no_props_def Let_def)

lemma store_ok_submit: "store_ok w \<Longrightarrow> store_ok (submitTaskForm e ttl desc due w)"
proof -
  assume ok: "store_ok w"
  let ?n = "fst (dbCreateTask e (form_body ttl desc due) w)"
  have "task_ok ?n"
    by (simp add: task_ok_def dbCreateTask_record form_body_props js_or_def)
  moreover have "t_id ?n = Suc (task_key w)" by (simp add: dbCreateTask_record)
  ultimately have "store_ok (snd (dbCreateTask e (form_body ttl desc due) w))"
    using ok by (fastforce simp: dbCreateTask_world store_ok_def keys_ok_def)
  with ok show ?thesis by (simp add: submitTaskForm_def)
qed

lemma store_ok_toggle: "store_ok w \<Longrightarrow> store_ok (toggleComplete e t w)"
  by (simp add: toggleComplete_def Let_def store_ok_push store_ok_update)

lemma store_ok_edit: "store_ok w \<Longrightarrow> store_ok (submitEditForm e i ttl disabled desc due w)"
  by (simp add: submitEditForm_def Let_def store_ok_push store_ok_update split: option.splits)

lemma store_ok_save: "store_ok w \<Longrightarrow> store_ok (clickSaveConnection e nm tok dbid w)"
  by (auto simp: clickSaveConnection_def dbCreateConnection_def localNow_def Let_def
        store_ok_def keys_ok_def)

lemma store_ok_fold_delete_owned:
  "store_ok w \<Longrightarrow> store_ok (fold (delete_owned conn) ts w)"
  by (induction ts arbitrary: w) (simp_all add: delete_owned_def store_ok_delete)

lemma store_ok_delete_connection: "store_ok w \<Longrightarrow> store_ok (clickDeleteConnection conn w)"
proof -
  assume "store_ok w"
  then have "store_ok (fold (delete_owned conn)
                (dbGetAllTasks (no_props(''source'' := JStr ''notion'')) w) w)"
    by (rule store_ok_fold_delete_owned)
  then show ?thesis
    by (auto simp: clickDeleteConnection_def Let_def dbDeleteConnection_def store_ok_def
          keys_ok_def split: option.splits)
qed

lemma dbUpdateConnection_ids:
  assumes "\<And>c. c_id (assign c) = c_id c"
  shows "map c_id (conns (snd (dbUpdateConnection i assign w))) = map c_id (conns w)"
proof (cases "find (\<lambda>c. c_id c = i) (conns w)")
  case None
  then show ?thesis by (simp add: dbUpdateConnection_def)
next
  case (Some c)
  have "map c_id (map (\<lambda>d. if c_id d = c_id (assign c) then assign c else d) cs) = map c_id cs"
    for cs
    by (induction cs) auto
  with Some show ?thesis by (simp add: dbUpdateConnection_def)
qed

lemma conns_syncConnection:
  "map c_id (conns (snd (syncConnection e conn w))) = map c_id (conns w)"
proof (cases "fetch_reply e conn w")
  case (Rejected msg)
  then show ?thesis
    by (simp add: syncConnection_rejected fetched_def pushed_def fold_push_task_other)
next
  case (Resolved todos)
  have "conns (snd (localNow e (swept e conn todos w))) = conns w"
    by (simp add: localNow_def swept_def fold_remove_deleted_other pulled_def
          fold_pull_todo_other fetched_def pushed_def fold_push_task_other)
  with Resolved show ?thesis
    by (simp add: syncConnection_resolved stamped_def dbUpdateConnection_ids)
qed

lemma conns_positive_syncConnection:
  assumes "\<forall>c\<in>set (conns w). 0 < c_id c"
  shows "\<forall>c\<in>set (conns (snd (syncConnection e conn w))). 0 < c_id c"
proof
  fix c assume "c \<in> set (conns (snd (syncConnection e conn w)))"
  then have "c_id c \<in> set (map c_id (conns (snd (syncConnection e conn w))))"
    by simp
  then have "c_id c \<in> set (map c_id (conns w))"
    by (simp only: conns_syncConnection)
  then obtain d where "d \<in> set (conns w)" "c_id d = c_id c"
    by auto
  with assms show "0 < c_id c" by auto
qed

lemma task_ok_pulled_new:
  assumes "pulled_new conn todos w u" and "0 < c_id conn"
    and "\<forall>todo\<in>set todos. r_source_id todo \<noteq> []"
  shows "task_ok u"
  using assms by (auto simp: pulled_new_def created_from_def task_ok_def js_or_def)

lemma store_ok_syncConnection:
  assumes ok: "store_ok w" and pos: "0 < c_id conn" and ids: "block_ids_present e"
  shows "store_ok (snd (syncConnection e conn w))"
proof -
  have cs: "\<forall>c\<in>set (conns (snd (syncConnection e conn w))). 0 < c_id c"
    using ok by (intro conns_positive_syncConnection) (simp add: store_ok_def)
  show ?thesis
  proof (cases "fetch_reply e conn w")
    case (Rejected msg)
    have "task_key (snd (syncConnection e conn w)) = task_key w"
      using Rejected by (simp add: syncConnection_rejected fetched_def pushed_def fold_push_task_other)
    with ok cs Rejected show ?thesis
      by (simp add: store_ok_def keys_ok_def tasks_syncConnection_rejected)
  next
    case (Resolved todos)
    have k: "keys_ok w" using ok by (simp add: store_ok_def)
    have ne: "\<forall>todo\<in>set todos. r_source_id todo \<noteq> []"
      using ids Resolved by (auto simp: block_ids_present_def fetch_reply_def)
    have m3: "mid conn todos w (snd (pulled e conn todos w))" using k by (rule mid_pulled)
    have "task_ok u" if "u \<in> set (tasks (snd (syncConnection e conn w)))" for u
    proof -
      from that have "u \<in> set (tasks (snd (pulled e conn todos w)))"
        by (simp add: tasks_syncConnection_resolved[OF Resolved])
      with m3 have "descends conn todos w u" by (simp add: mid_def)
      then show ?thesis
      proof (unfold descends_def, elim disjE bexE)
        fix t assume "t \<in> set (tasks w)" "kept t u"
        with ok show ?thesis by (auto simp: store_ok_def kept_def intro: task_ok_identity)
      next
        assume "pulled_new conn todos w u"
        then show ?thesis using pos ne by (rule task_ok_pulled_new)
      qed
    qed
    with keys_ok_syncConnection_resolved[OF k Resolved] cs show ?thesis
      by (simp add: store_ok_def)
  qed
qed

lemma store_ok_clickSync:
  "store_ok w \<Longrightarrow> 0 < c_id conn \<Longrightarrow> block_ids_present e \<Longrightarrow> store_ok (clickSync e conn w)"
  using store_ok_syncConnection[of w conn e]
  by (auto simp: clickSync_def log_line_def split: prod.splits sum.splits
        intro: store_ok_cong)

lemma store_ok_sync_logged:
  "store_ok w \<Longrightarrow> 0 < c_id conn \<Longrightarrow> block_ids_present e \<Longrightarrow> store_ok (sync_logged e conn w)"
  using store_ok_syncConnection[of w conn e]
  by (auto simp: sync_logged_def log_line_def intro: store_ok_cong)

lemma store_ok_fold_sync_logged:
  "store_ok w \<Longrightarrow> \<forall>c\<in>set cs. 0 < c_id c \<Longrightarrow> block_ids_present e \<Longrightarrow>
   store_ok (fold (sync_logged e) cs w)"
  by (induction cs arbitrary: w) (simp_all add: store_ok_sync_logged)

lemma store_ok_syncAll:
  assumes "store_ok w" and "block_ids_present e"
  shows "store_ok (snd (syncAllConnections e w))"
proof -
  have "\<forall>c\<in>set (filter eligible (conns w)). 0 < c_id c"
    using assms(1) by (simp add: store_ok_def)
  from store_ok_fold_sync_logged[OF assms(1) this assms(2)] show ?thesis
    by (simp add: syncAllConnections_def dbGetAllConnections_def for_each_sync_one)
qed

lemma reachable_store_ok:
  assumes "block_ids_present e" and "reachable e w"
  shows "store_ok w"
  using assms(2)
proof (induction rule: reachable.induct)
  case start
  show ?case by (simp add: empty_world_def store_ok_def keys_ok_def)
next
  case (sync w0 conn w)
  then have "0 < c_id conn" by (simp add: store_ok_def)
  with sync assms(1) show ?case by (simp add: store_ok_clickSync)
qed (simp_all add: store_ok_submit store_ok_toggle store_ok_edit store_ok_delete doDelete_def
       store_ok_save store_ok_delete_connection store_ok_syncAll assms(1))

subsection \<open>The values a task holds after the pull\<close>

lemma pulled_record_written:
  assumes k: "keys_ok w"
    and d: "distinct (map r_source_id todos)"
    and t: "t \<in> set (tasks w)" "source t = JStr ''notion''" "truthy (source_id t)"
    and r: "todo \<in> set todos" "source_id t = JStr (r_source_id todo)"
    and u: "\<forall>u\<in>set (tasks w). source u = JStr ''notion'' \<and> source_id u = source_id t \<longrightarrow> u = t"
  shows "\<exists>now. dbGetTask (t_id t) (snd (pulled e conn todos w))
                 = Some (written (pull_fields todo) now t)"
proof -
  let ?m = "local_index w"
  let ?i = "t_id t"
  have m: "?m (JStr (r_source_id todo)) = Some t"
    using local_index_unique[OF t u] r(2) by simp
  then have tg: "targets ?m todo ?i" by (simp add: targets_def)
  from r(1) obtain before after where sp: "todos = before @ todo # after"
    by (auto dest: split_list)
  have others: "\<not> targets ?m x ?i" if "x \<in> set before \<union> set after" for x
  proof
    assume "targets ?m x ?i"
    then obtain ex where ex: "?m (JStr (r_source_id x)) = Some ex" "t_id ex = ?i"
      by (auto simp: targets_def)
    from local_index_Some[OF ex(1)] have e1: "ex \<in> set (tasks w)" "source_id ex = JStr (r_source_id x)"
      by simp_all
    from keys_ok_unique[OF k e1(1) t(1) ex(2)] e1(2) r(2)
    have "r_source_id x = r_source_id todo" by simp
    with d sp that show False by (auto simp: image_iff)
  qed
  have g: "dbGetTask ?i (fetched e conn w) = Some t"
    using k t(1) dbGetTask_member[of "fetched e conn w" t]
    by (simp add: keys_ok_def tasks_fetched)
  from fold_pull_writes_record[OF g sp tg, of e conn "[]"] others
  show ?thesis by (auto simp: pulled_def)
qed

lemma distinct_map_eq:
  "distinct (map f xs) \<Longrightarrow> a \<in> set xs \<Longrightarrow> b \<in> set xs \<Longrightarrow> f a = f b \<Longrightarrow> a = b"
  by (auto simp: distinct_map inj_on_def)

lemma holds_remote_written: "holds_remote todo (written (pull_fields todo) now t)"
  by (simp add: holds_remote_def written_pull_fields)

lemma synced_task_holds_remote:
  assumes k: "keys_ok w" and f: "fetch_reply e conn w = Resolved todos"
    and d: "distinct (map r_source_id todos)"
    and url: "\<forall>todo\<in>set todos. r_source_url todo \<noteq> []"
    and uq: "unique_source_ids w"
    and r: "todo \<in> set todos" "r_source_id todo \<noteq> []"
    and T: "T \<in> set (tasks (snd (syncConnection e conn w)))" "source T = JStr ''notion''"
      "source_id T = JStr (r_source_id todo)"
  shows "holds_remote todo T"
proof -
  let ?w3 = "snd (pulled e conn todos w)"
  have m3: "mid conn todos w ?w3" using k by (rule mid_pulled)
  then have k3: "keys_ok ?w3" by (simp add: mid_def)
  from T(1) have T3: "T \<in> set (tasks ?w3)"
    by (simp add: tasks_syncConnection_resolved[OF f])
  with m3 have "descends conn todos w T" by (simp add: mid_def)
  then show ?thesis
  proof (unfold descends_def, elim disjE bexE)
    fix t assume t: "t \<in> set (tasks w)" "kept t T"
    then have same: "t_id T = t_id t" "source t = JStr ''notion''"
        "source_id t = JStr (r_source_id todo)"
      using T(2,3) by (simp_all add: kept_def same_identity_def)
    have tr: "truthy (source_id t)" using same(3) r(2) by simp
    have u: "\<forall>u\<in>set (tasks w). source u = JStr ''notion'' \<and> source_id u = source_id t \<longrightarrow> u = t"
      using uq t(1) same(2) tr by (auto simp: unique_source_ids_def)
    from pulled_record_written[OF k d t(1) same(2) tr r(1) same(3) u, of e conn]
    obtain now where g: "dbGetTask (t_id t) ?w3 = Some (written (pull_fields todo) now t)"
      by auto
    from dbGetTask_Some[OF g] have "written (pull_fields todo) now t \<in> set (tasks ?w3)"
      "t_id (written (pull_fields todo) now t) = t_id T"
      using same(1) by simp_all
    from keys_ok_unique[OF k3 this(1) T3 this(2)] show ?thesis
      using holds_remote_written[of todo now t] by simp
  next
    assume "pulled_new conn todos w T"
    then obtain todo' where c: "todo' \<in> set todos" "created_from todo' T"
      by (auto simp: pulled_new_def)
    then have "r_source_id todo' = r_source_id todo"
      using T(3) r(2) by (auto simp: created_from_def js_or_def split: if_splits)
    from distinct_map_eq[OF d c(1) r(1) this] have "todo' = todo" .
    with c(2) url r(1) show ?thesis
      by (auto simp: created_from_def holds_remote_def js_or_def)
  qed
qed

subsection \<open>A pull that writes what the tasks hold already\<close>

lemma restamped_refl: "restamped a a"
  by (simp add: restamped_def)

lemma restamped_t_id: "restamped a b \<Longrightarrow> t_id b = t_id a"
  by (cases a, cases b) (simp add: restamped_def)

lemma restamped_written:
  assumes "restamped a b" and "holds_remote todo a"
  shows "restamped a (written (pull_fields todo) now b)"
  using assms
  by (cases a, cases b)
     (simp add: restamped_def holds_remote_def written_def allowed_def update_field_def
        set_prop_def pull_fields_def no_props_def flag_def)

lemma dbUpdateTask_restamps:
  assumes d: "distinct (map t_id ts0)" and l: "list_all2 restamped ts0 (tasks w)"
    and T: "T \<in> set ts0" and h: "holds_remote todo T"
  shows "list_all2 restamped ts0 (tasks (snd (dbUpdateTask e (t_id T) (pull_fields todo) w)))"
proof (cases "dbGetTask (t_id T) w")
  case None
  with l show ?thesis by (simp add: dbUpdateTask_world)
next
  case (Some found)
  let ?t' = "written (pull_fields todo) (clock e (ticks w)) found"
  have key: "t_id ?t' = t_id T"
    using dbGetTask_Some[OF Some] written_identity[of found "pull_fields todo" "clock e (ticks w)"]
    by (simp add: same_identity_def)
  have fnd: "found \<in> set (tasks w)" using dbGetTask_Some[OF Some] by simp
  have len: "length ts0 = length (tasks w)" using l by (rule list_all2_lengthD)
  have Tf: "restamped T found"
  proof -
    from fnd obtain j where j: "j < length (tasks w)" "tasks w ! j = found"
      by (auto simp: in_set_conv_nth)
    with l len have rj: "restamped (ts0 ! j) found" by (auto dest: list_all2_nthD2)
    then have "t_id (ts0 ! j) = t_id T"
      using dbGetTask_Some[OF Some] by (simp add: restamped_t_id)
    moreover have "ts0 ! j \<in> set ts0" using j(1) len by simp
    ultimately have "ts0 ! j = T" using d T by (auto intro: distinct_map_eq)
    with rj show ?thesis by simp
  qed
  have step: "restamped a (if t_id u = t_id ?t' then ?t' else u)"
    if "(a, u) \<in> set (zip ts0 (tasks w))" for a u
  proof (cases "t_id u = t_id ?t'")
    case True
    from that l have au: "restamped a u" by (auto simp: list_all2_iff)
    then have "t_id a = t_id T" using True key by (simp add: restamped_t_id)
    moreover have "a \<in> set ts0" using that by (rule set_zip_leftD)
    ultimately have "a = T" using d T by (auto intro: distinct_map_eq)
    with True Tf h show ?thesis by (simp add: restamped_written)
  next
    case False
    with that l show ?thesis by (auto simp: list_all2_iff)
  qed
  have "list_all2 restamped ts0 (idb_put ?t' (tasks w))"
    using len step by (auto simp: idb_put_def list_all2_iff zip_map2)
  with Some show ?thesis by (simp add: dbUpdateTask_world)
qed

lemma fold_pull_restamps:
  assumes "\<forall>todo\<in>set todos. \<exists>T\<in>set ts0. m (JStr (r_source_id todo)) = Some T \<and> holds_remote todo T"
    and "distinct (map t_id ts0)" and "list_all2 restamped ts0 (tasks w)"
  shows "list_all2 restamped ts0 (tasks (snd (fold (pull_todo e conn m) todos (rids, w))))"
  using assms
proof (induction todos arbitrary: rids w)
  case Nil
  then show ?case by simp
next
  case (Cons todo todos)
  from Cons.prems(1) obtain T where T: "T \<in> set ts0" "m (JStr (r_source_id todo)) = Some T"
      "holds_remote todo T"
    by auto
  let ?w' = "snd (dbUpdateTask e (t_id T) (pull_fields todo) w)"
  have step: "pull_todo e conn m todo (rids, w) = (rids @ [JStr (r_source_id todo)], ?w')"
    using T(2) by (simp add: pull_todo_eq)
  have "list_all2 restamped ts0 (tasks ?w')"
    using Cons.prems(2,3) T(1,3) by (rule dbUpdateTask_restamps)
  from Cons.IH[OF _ Cons.prems(2) this, of "rids @ [JStr (r_source_id todo)]"] Cons.prems(1)
  show ?case by (simp add: step)
qed

subsection \<open>Unfolding the examples\<close>

lemmas ex_defs = ex_env_def ex_task_def ex_conn_def ex_world_def ex_item_def ex_conn2_def
  ex_conn3_def ex_env2_def ex_world2_def

lemmas run_defs = syncConnection_def dbGetAllTasks_def js_sort_def compare_tasks_def
  localeCompare_def no_props_def notionFetchTodos_def notionUpdateTodoChecked_def
  notionUpdateTodoText_def notion_call_def push_task_def index_task_def pull_todo_def
  pull_fields_def pull_data_def todo_obj_def remove_deleted_def dbCreateTask_def
  dbUpdateTask_def dbDeleteTask_def dbGetTask_def dbUpdateConnection_def localNow_def
  idb_put_def allowed_def update_field_def set_prop_def js_or_def flag_def Let_def
  syncAllConnections_def sync_one_def log_line_def dbGetAllConnections_def
  pushTaskToNotion_def push_updates_def

lemmas ex_defs2 = ex_task_y_def ex_task_local_def ex_item_x_def ex_env3_def ex_world3_def
  ex_task_other_def ex_world4_def ex_task_twin_def ex_world5_def

lemmas ex_defs3 = ex_task_done_def ex_task_done_twin_def ex_item_open_def ex_env5_def
  ex_world6_def

lemma ex_fetch_reply: "fetch_reply ex_env3 conn w = Resolved [ex_item_x]"
  by (simp add: fetch_reply_def ex_env3_def)

section \<open>The claims\<close>

subsection \<open>Two runs in a row\<close>

text \<open>
  Claim C1 as stated fails where two tasks carry the same \<^verbatim>\<open>source_id\<close>. The \<^verbatim>\<open>Map\<close>
  holds the last of them in the order of \<^verbatim>\<open>dbGetAllTasks\<close>, and the first run changes
  that order when it writes \<^verbatim>\<open>completed\<close>. Here both runs fetch the same list; the first
  run rewrites the task under the key 1 and leaves the one under the key 2 as it was,
  the second run rewrites the task under the key 2: its title, its \<^verbatim>\<open>completed\<close> and its
  \<^verbatim>\<open>updated_at\<close> after the second run are not those after the first.
\<close>

theorem syncConnection_twice_rewrites_twin:
  "keys_ok ex_world6 \<and>
   fetch_reply ex_env5 ex_conn ex_world6 = Resolved [ex_item_open] \<and>
   fetch_reply ex_env5 ex_conn (snd (syncConnection ex_env5 ex_conn ex_world6))
     = Resolved [ex_item_open] \<and>
   dbGetTask 2 (snd (syncConnection ex_env5 ex_conn ex_world6)) = Some ex_task_done_twin \<and>
   dbGetTask 2 (snd (syncConnection ex_env5 ex_conn
                       (snd (syncConnection ex_env5 ex_conn ex_world6))))
     = Some (ex_task_done_twin\<lparr>title := JStr ''Buy oat milk'', completed := JNum 0,
                                 updated_at := 102\<rparr>) \<and>
   map title (tasks (snd (syncConnection ex_env5 ex_conn ex_world6)))
     = [JStr ''Buy oat milk'', JStr ''Buy milk''] \<and>
   map title (tasks (snd (syncConnection ex_env5 ex_conn
                            (snd (syncConnection ex_env5 ex_conn ex_world6)))))
     = [JStr ''Buy oat milk'', JStr ''Buy oat milk'']"
proof -
  have k: "keys_ok ex_world6"
    by (simp add: keys_ok_def ex_defs ex_defs3)
  have f: "fetch_reply ex_env5 ex_conn w = Resolved [ex_item_open]" for w
    by (simp add: fetch_reply_def ex_env5_def)
  have a: "tasks (snd (syncConnection ex_env5 ex_conn ex_world6))
             = [ex_task_done\<lparr>title := JStr ''Buy oat milk'', completed := JNum 0,
                               updated_at := 100\<rparr>, ex_task_done_twin]"
    by (simp add: run_defs ex_defs ex_defs3)
  have b: "tasks (snd (syncConnection ex_env5 ex_conn
                         (snd (syncConnection ex_env5 ex_conn ex_world6))))
             = [ex_task_done\<lparr>title := JStr ''Buy oat milk'', completed := JNum 0,
                               updated_at := 100\<rparr>,
                ex_task_done_twin\<lparr>title := JStr ''Buy oat milk'', completed := JNum 0,
                                    updated_at := 102\<rparr>]"
    by (simp add: run_defs ex_defs ex_defs3)
  from k f a b show ?thesis
    by (simp add: dbGetTask_def ex_defs3)
qed

text \<open>
  Where every remote identifier is carried by one task, the second run still writes
  \<^verbatim>\<open>updated_at\<close> on each matched task: \<^verbatim>\<open>dbUpdateTask\<close> stamps every record it puts.
\<close>

lemma second_run_stamps_again:
  "unique_source_ids ex_world3 \<and>
   map updated_at (tasks (snd (syncConnection ex_env3 ex_conn ex_world3))) = [100, 12] \<and>
   map updated_at (tasks (snd (syncConnection ex_env3 ex_conn
                                 (snd (syncConnection ex_env3 ex_conn ex_world3)))))
     = [102, 12]"
proof -
  have "unique_source_ids ex_world3"
    by (simp add: unique_source_ids_def ex_defs ex_defs2)
  moreover have "map updated_at (tasks (snd (syncConnection ex_env3 ex_conn ex_world3)))
                   = [100, 12]"
    by (simp add: run_defs ex_defs ex_defs2)
  moreover have "map updated_at (tasks (snd (syncConnection ex_env3 ex_conn
                     (snd (syncConnection ex_env3 ex_conn ex_world3))))) = [102, 12]"
    by (simp add: run_defs ex_defs ex_defs2)
  ultimately show ?thesis by simp
qed

text \<open>
  Claim C1, amended. Let \<^verbatim>\<open>syncConnection\<close> run twice in a row on one connection,
  nothing else touching the store in between, the fetch resolving with the same list
  \<open>todos\<close> both times (every to-do with a non-empty block id, as Notion's are). In the
  second run every fetched to-do finds a local task in \<^verbatim>\<open>localBySourceId\<close>; no task is
  created (the key generator does not move) and none is deleted: the store holds the
  same keys in the same order after the second run as after the first, each task with
  the same \<^verbatim>\<open>source\<close>, \<^verbatim>\<open>source_id\<close>, \<^verbatim>\<open>connection_id\<close> and \<^verbatim>\<open>created_at\<close>. And where
  the fetched to-dos have pairwise different ids (and non-empty links, as the client
  builds them), and no two Notion tasks of the store carried the same remote identifier
  before the first run, every record is the same after the second run as after the
  first but for \<^verbatim>\<open>updated_at\<close>.
\<close>

theorem syncConnection_twice:
  assumes k: "keys_ok w"
    and ne: "\<forall>todo\<in>set todos. r_source_id todo \<noteq> []"
    and f1: "fetch_reply e conn w = Resolved todos"
    and f2: "fetch_reply e conn (snd (syncConnection e conn w)) = Resolved todos"
  shows "(\<forall>todo\<in>set todos.
            local_index (snd (syncConnection e conn w)) (JStr (r_source_id todo)) \<noteq> None) \<and>
         map t_id (tasks (snd (syncConnection e conn (snd (syncConnection e conn w)))))
           = map t_id (tasks (snd (syncConnection e conn w))) \<and>
         task_key (snd (syncConnection e conn (snd (syncConnection e conn w))))
           = task_key (snd (syncConnection e conn w)) \<and>
         list_all2 same_identity (tasks (snd (syncConnection e conn w)))
           (tasks (snd (syncConnection e conn (snd (syncConnection e conn w))))) \<and>
         (distinct (map r_source_id todos) \<and> (\<forall>todo\<in>set todos. r_source_url todo \<noteq> []) \<and>
          unique_source_ids w \<longrightarrow>
            list_all2 restamped (tasks (snd (syncConnection e conn w)))
              (tasks (snd (syncConnection e conn (snd (syncConnection e conn w))))))"
proof -
  let ?w1 = "snd (syncConnection e conn w)"
  let ?w2 = "snd (syncConnection e conn ?w1)"
  have k1: "keys_ok ?w1" using k f1 by (rule keys_ok_syncConnection_resolved)
  have matched: "local_index ?w1 (JStr (r_source_id todo)) \<noteq> None" if "todo \<in> set todos" for todo
  proof
    assume none: "local_index ?w1 (JStr (r_source_id todo)) = None"
    from syncConnection_covers_fetched[OF k f1 that] ne that
    obtain u where u: "u \<in> set (tasks ?w1)" "source u = JStr ''notion''"
        "source_id u = JStr (r_source_id todo)"
      by auto
    with ne that have "truthy (source_id u)" by simp
    from local_index_None[OF none u(1,2) this] u(3) show False by simp
  qed
  have d1: "distinct (map t_id (tasks (fetched e conn ?w1)))"
    using k1 by (simp add: keys_ok_def tasks_fetched)
  from fold_pull_all_matched[of todos "local_index ?w1" "fetched e conn ?w1" e conn "[]"] matched d1
  have p: "map t_id (tasks (snd (pulled e conn todos ?w1))) = map t_id (tasks ?w1)"
      "task_key (snd (pulled e conn todos ?w1)) = task_key ?w1"
      "list_all2 same_identity (tasks ?w1) (tasks (snd (pulled e conn todos ?w1)))"
    by (simp_all add: pulled_def tasks_fetched task_key_fetched)
  have "orphan_keys conn todos ?w1 = {}"
    using k f1 by (rule syncConnection_leaves_no_orphan)
  then have t2: "tasks ?w2 = tasks (snd (pulled e conn todos ?w1))"
    by (simp add: tasks_syncConnection_resolved[OF f2])
  have k2: "task_key ?w2 = task_key (snd (pulled e conn todos ?w1))"
    using f2 by (rule task_key_syncConnection_resolved)
  have same: "list_all2 restamped (tasks ?w1) (tasks ?w2)"
    if d: "distinct (map r_source_id todos)"
      and url: "\<forall>todo\<in>set todos. r_source_url todo \<noteq> []"
      and uq: "unique_source_ids w"
  proof -
    have held: "\<exists>T\<in>set (tasks ?w1).
                  local_index ?w1 (JStr (r_source_id todo)) = Some T \<and> holds_remote todo T"
      if r: "todo \<in> set todos" for todo
    proof -
      from matched[OF r] obtain T where T: "local_index ?w1 (JStr (r_source_id todo)) = Some T"
        by auto
      from local_index_Some[OF T]
      have T1: "T \<in> set (tasks ?w1)" "source T = JStr ''notion''"
          "source_id T = JStr (r_source_id todo)"
        by simp_all
      from ne r have "r_source_id todo \<noteq> []" by simp
      from synced_task_holds_remote[OF k f1 d url uq r this T1] T T1(1) show ?thesis
        by blast
    qed
    have "list_all2 restamped (tasks ?w1) (tasks (fetched e conn ?w1))"
      by (simp add: tasks_fetched list_all2_refl restamped_refl)
    from fold_pull_restamps[of todos "tasks ?w1" "local_index ?w1" "fetched e conn ?w1" e conn "[]"]
      held k1 this
    show ?thesis
      by (simp add: t2 pulled_def keys_ok_def)
  qed
  from matched p t2 k2 same show ?thesis by simp
qed

theorem syncConnection_twice_witness:
  "keys_ok ex_world3 \<and>
   fetch_reply ex_env4 ex_conn ex_world3 = Resolved [ex_item_x, ex_item_z] \<and>
   fetch_reply ex_env4 ex_conn (snd (syncConnection ex_env4 ex_conn ex_world3))
     = Resolved [ex_item_x, ex_item_z] \<and>
   unique_source_ids ex_world3 \<and>
   map t_id (tasks ex_world3) = [1, 2, 3] \<and>
   map t_id (tasks (snd (syncConnection ex_env4 ex_conn ex_world3))) = [1, 3, 4] \<and>
   map t_id (tasks (snd (syncConnection ex_env4 ex_conn
                           (snd (syncConnection ex_env4 ex_conn ex_world3))))) = [1, 3, 4] \<and>
   list_all2 restamped (tasks (snd (syncConnection ex_env4 ex_conn ex_world3)))
     (tasks (snd (syncConnection ex_env4 ex_conn
                    (snd (syncConnection ex_env4 ex_conn ex_world3)))))"
proof -
  have k: "keys_ok ex_world3"
    by (simp add: keys_ok_def ex_defs ex_defs2)
  have f: "fetch_reply ex_env4 ex_conn w = Resolved [ex_item_x, ex_item_z]" for w
    by (simp add: fetch_reply_def ex_env4_def)
  have ne: "\<forall>todo\<in>set [ex_item_x, ex_item_z]. r_source_id todo \<noteq> []"
    by (simp add: ex_item_x_def ex_item_z_def)
  have d: "distinct (map r_source_id [ex_item_x, ex_item_z])"
    by (simp add: ex_item_x_def ex_item_z_def)
  have url: "\<forall>todo\<in>set [ex_item_x, ex_item_z]. r_source_url todo \<noteq> []"
    by (simp add: ex_item_x_def ex_item_z_def)
  have uq: "unique_source_ids ex_world3"
    by (simp add: unique_source_ids_def ex_defs ex_defs2)
  have a: "map t_id (tasks ex_world3) = [1, 2, 3]"
    by (simp add: ex_defs ex_defs2)
  have b: "map t_id (tasks (snd (syncConnection ex_env4 ex_conn ex_world3))) = [1, 3, 4]"
    by (simp add: run_defs ex_defs ex_defs2 ex_env4_def ex_item_z_def)
  from syncConnection_twice[OF k ne f f] k f a b d url uq show ?thesis
    by simp
qed

subsection \<open>The lookup by remote identifier\<close>

text \<open>
  Claim C2, on the code. The loop that fills \<^verbatim>\<open>localBySourceId\<close> takes every Notion
  task that has a \<^verbatim>\<open>source_id\<close>, whatever its connection. Here the to-do \<^verbatim>\<open>x\<close> is fetched
  for the connection with key 1, no task of that connection carries \<^verbatim>\<open>x\<close>, and a task of
  the connection with key 2 does: the lookup finds that task, it is overwritten with
  the remote values, and no task is created for connection 1.
\<close>

theorem syncConnection_index_spans_connections:
  "local_index ex_world4 (JStr ''x'') = Some ex_task_other \<and>
   connection_id ex_task_other \<noteq> JNum (int (c_id ex_conn)) \<and>
   fetch_reply ex_env3 ex_conn ex_world4 = Resolved [ex_item_x] \<and>
   map connection_id (tasks (snd (syncConnection ex_env3 ex_conn ex_world4))) = [JNum 2] \<and>
   map title (tasks (snd (syncConnection ex_env3 ex_conn ex_world4))) = [JStr ''Buy oat milk'']"
proof -
  have "local_index ex_world4 (JStr ''x'') = Some ex_task_other"
    by (simp add: local_index_def notion_tasks_def dbGetAllTasks_def js_sort_def no_props_def
          index_task_def ex_defs ex_defs2)
  moreover have "connection_id ex_task_other \<noteq> JNum (int (c_id ex_conn))"
    by (simp add: ex_defs ex_defs2)
  moreover have "map connection_id (tasks (snd (syncConnection ex_env3 ex_conn ex_world4))) = [JNum 2]"
    by (simp add: run_defs ex_defs ex_defs2)
  moreover have "map title (tasks (snd (syncConnection ex_env3 ex_conn ex_world4)))
                   = [JStr ''Buy oat milk'']"
    by (simp add: run_defs ex_defs ex_defs2)
  ultimately show ?thesis
    using ex_fetch_reply by simp
qed

subsection \<open>Deleted to-dos\<close>

text \<open>
  Claim C3. After a \<^verbatim>\<open>syncConnection\<close> whose fetch resolved with the list \<open>todos\<close>: a
  Notion task that belonged to the connection at the start and has a \<^verbatim>\<open>source_id\<close>
  (\<open>owned_by\<close>) is no longer stored when its \<^verbatim>\<open>source_id\<close> is not among the fetched
  identifiers, and is still stored under its key, with the same \<^verbatim>\<open>source\<close>,
  \<^verbatim>\<open>source_id\<close>, \<^verbatim>\<open>connection_id\<close> and \<^verbatim>\<open>created_at\<close>, when it is among them. (The
  delete loop runs over \<^verbatim>\<open>dbGetAllTasks({ source: 'notion' })\<close>; the tasks the program
  stores with a connection are Notion tasks, \<^verbatim>\<open>dbCreateTask\<close> being called with a
  \<^verbatim>\<open>connection_id\<close> only in the pull, with \<^verbatim>\<open>source: 'notion'\<close>.)
\<close>

theorem syncConnection_removes_orphans:
  assumes "keys_ok w" and "fetch_reply e conn w = Resolved todos"
    and "t \<in> set (tasks w)" and "source t = JStr ''notion''" and "owned_by conn t"
  shows "(source_id t \<notin> set (remote_ids todos) \<longrightarrow>
            dbGetTask (t_id t) (snd (syncConnection e conn w)) = None) \<and>
         (source_id t \<in> set (remote_ids todos) \<longrightarrow>
            (\<exists>t'. dbGetTask (t_id t) (snd (syncConnection e conn w)) = Some t' \<and>
                  same_identity t t'))"
proof (intro conjI impI)
  let ?w3 = "snd (pulled e conn todos w)"
  let ?keep = "\<lambda>u. t_id u \<notin> orphan_keys conn todos w"
  have ts: "tasks (snd (syncConnection e conn w)) = filter ?keep (tasks ?w3)"
    using assms(2) by (rule tasks_syncConnection_resolved)
  {
    assume "source_id t \<notin> set (remote_ids todos)"
    with assms(3-5) have "t_id t \<in> orphan_keys conn todos w"
      by (auto simp: orphan_keys_def orphan_def)
    then show "dbGetTask (t_id t) (snd (syncConnection e conn w)) = None"
      by (auto simp: dbGetTask_def ts find_None_iff)
  }
  {
    assume seen: "source_id t \<in> set (remote_ids todos)"
    have m: "mid conn todos w ?w3" using assms(1) by (rule mid_pulled)
    with assms(3) obtain u where u: "u \<in> set (tasks ?w3)" "kept t u"
      by (auto simp: mid_def)
    have "t_id t \<notin> orphan_keys conn todos w"
      using orphan_keys_notion[OF assms(1,3)] seen by (auto simp: orphan_def)
    with u have in_final: "u \<in> set (filter ?keep (tasks ?w3))"
      by (simp add: kept_def same_identity_def)
    have "distinct (map t_id (filter ?keep (tasks ?w3)))"
      using m by (simp add: mid_def keys_ok_def distinct_map_filter)
    from find_distinct_key[OF this in_final] u(2)
    have "dbGetTask (t_id t) (snd (syncConnection e conn w)) = Some u"
      by (simp add: dbGetTask_def ts kept_def same_identity_def)
    with u(2) show "\<exists>t'. dbGetTask (t_id t) (snd (syncConnection e conn w)) = Some t' \<and>
                  same_identity t t'"
      by (auto simp: kept_def)
  }
qed

theorem syncConnection_removes_orphans_witness:
  "keys_ok ex_world3 \<and> fetch_reply ex_env3 ex_conn ex_world3 = Resolved [ex_item_x] \<and>
   owned_by ex_conn ex_task \<and> owned_by ex_conn ex_task_y \<and>
   dbGetTask 2 (snd (syncConnection ex_env3 ex_conn ex_world3)) = None \<and>
   (\<exists>t'. dbGetTask 1 (snd (syncConnection ex_env3 ex_conn ex_world3)) = Some t' \<and>
         same_identity ex_task t')"
proof -
  have k: "keys_ok ex_world3"
    by (simp add: keys_ok_def ex_defs ex_defs2)
  have x: "ex_task \<in> set (tasks ex_world3)" "source ex_task = JStr ''notion''"
      "owned_by ex_conn ex_task" "source_id ex_task \<in> set (remote_ids [ex_item_x])"
      "t_id ex_task = 1"
    by (simp_all add: owned_by_def remote_ids_def ex_defs ex_defs2)
  have y: "ex_task_y \<in> set (tasks ex_world3)" "source ex_task_y = JStr ''notion''"
      "owned_by ex_conn ex_task_y" "source_id ex_task_y \<notin> set (remote_ids [ex_item_x])"
      "t_id ex_task_y = 2"
    by (simp_all add: owned_by_def remote_ids_def ex_defs ex_defs2)
  from syncConnection_removes_orphans[OF k ex_fetch_reply x(1-3)]
       syncConnection_removes_orphans[OF k ex_fetch_reply y(1-3)]
       k x(3-5) y(3-5) ex_fetch_reply
  show ?thesis by simp
qed

subsection \<open>Remote wins on pull\<close>

text \<open>
  Claim C4 as stated fails where two tasks of the connection carry the same
  \<^verbatim>\<open>source_id\<close>: the \<^verbatim>\<open>Map\<close> holds one task per identifier, the last in the order of
  \<^verbatim>\<open>dbGetAllTasks\<close>. Here the second task matches the fetched to-do \<^verbatim>\<open>x\<close> and is stored
  unchanged after the call, its title and completed flag differing from the remote
  ones.
\<close>

theorem syncConnection_twin_not_updated:
  "ex_task_twin \<in> set (tasks ex_world5) \<and>
   connection_id ex_task_twin = JNum (int (c_id ex_conn)) \<and>
   source_id ex_task_twin = JStr (r_source_id ex_item_x) \<and>
   fetch_reply ex_env3 ex_conn ex_world5 = Resolved [ex_item_x] \<and>
   dbGetTask (t_id ex_task_twin) (snd (syncConnection ex_env3 ex_conn ex_world5))
     = Some ex_task_twin \<and>
   title ex_task_twin \<noteq> JStr (r_title ex_item_x) \<and>
   completed ex_task_twin \<noteq> JNum (if r_completed ex_item_x then 1 else 0)"
proof -
  have "dbGetTask (t_id ex_task_twin) (snd (syncConnection ex_env3 ex_conn ex_world5))
          = Some ex_task_twin"
    by (simp add: run_defs ex_defs ex_defs2)
  moreover have "ex_task_twin \<in> set (tasks ex_world5) \<and>
      connection_id ex_task_twin = JNum (int (c_id ex_conn)) \<and>
      source_id ex_task_twin = JStr (r_source_id ex_item_x) \<and>
      title ex_task_twin \<noteq> JStr (r_title ex_item_x) \<and>
      completed ex_task_twin \<noteq> JNum (if r_completed ex_item_x then 1 else 0)"
    by (simp add: ex_defs ex_defs2)
  ultimately show ?thesis
    using ex_fetch_reply by simp
qed

text \<open>
  Claim C4, amended. Let the fetch resolve, and let \<open>t\<close> be a Notion task of the
  connection whose \<^verbatim>\<open>source_id\<close> is carried by no other Notion task of the store and
  is the identifier of a fetched to-do; let \<open>todo\<close> be the last to-do of the fetched list
  with that identifier (the only one, where the identifiers of the list differ). After
  \<^verbatim>\<open>syncConnection\<close> the task stored under the key of \<open>t\<close> has the title, the
  description and the \<^verbatim>\<open>source_url\<close> of \<open>todo\<close>, and \<^verbatim>\<open>completed\<close> 1 or 0 as \<open>todo\<close> is
  checked or not.
\<close>

theorem syncConnection_remote_wins:
  assumes k: "keys_ok w"
    and f: "fetch_reply e conn w = Resolved todos"
    and t: "t \<in> set (tasks w)" "source t = JStr ''notion''" "owned_by conn t"
    and u: "\<forall>u\<in>set (tasks w). source u = JStr ''notion'' \<and> source_id u = source_id t \<longrightarrow> u = t"
    and r: "todos = before @ todo # after" "source_id t = JStr (r_source_id todo)"
    and l: "\<forall>r\<in>set after. r_source_id r \<noteq> r_source_id todo"
  shows "\<exists>t'. dbGetTask (t_id t) (snd (syncConnection e conn w)) = Some t' \<and>
              title t' = JStr (r_title todo) \<and>
              description t' = JStr (r_description todo) \<and>
              completed t' = JNum (if r_completed todo then 1 else 0) \<and>
              source_url t' = JStr (r_source_url todo)"
proof -
  let ?m = "local_index w"
  have tr: "truthy (source_id t)" using t(3) by (simp add: owned_by_def)
  have "?m (JStr (r_source_id todo)) = Some t"
    using local_index_unique[OF t(1,2) tr u] r(2) by simp
  then have tg: "targets ?m todo (t_id t)" by (simp add: targets_def)
  have later: "\<not> targets ?m x (t_id t)" if "x \<in> set after" for x
  proof
    assume "targets ?m x (t_id t)"
    then obtain ex where ex: "?m (JStr (r_source_id x)) = Some ex" "t_id ex = t_id t"
      by (auto simp: targets_def)
    from local_index_Some[OF ex(1)]
    have e1: "ex \<in> set (tasks w)" "source_id ex = JStr (r_source_id x)"
      by simp_all
    from keys_ok_unique[OF k e1(1) t(1) ex(2)] e1(2) r(2)
    have "r_source_id x = r_source_id todo" by simp
    with l that show False by simp
  qed
  have g: "dbGetTask (t_id t) (fetched e conn w) \<noteq> None"
    using k t(1) dbGetTask_member[of "fetched e conn w" t]
    by (simp add: keys_ok_def tasks_fetched)
  from fold_pull_last_write[OF g r(1) tg, of e conn "[]"] later
  obtain now t1 where p: "dbGetTask (t_id t) (snd (pulled e conn todos w))
                            = Some (written (pull_fields todo) now t1)"
    by (auto simp: pulled_def)
  have "JStr (r_source_id todo) \<in> set (remote_ids todos)"
    by (simp add: r(1) remote_ids_def)
  then have "t_id t \<notin> orphan_keys conn todos w"
    using orphan_keys_notion[OF k t(1)] r(2) by (auto simp: orphan_def)
  then have "dbGetTask (t_id t) (snd (syncConnection e conn w))
               = Some (written (pull_fields todo) now t1)"
    using p by (simp add: dbGetTask_def tasks_syncConnection_resolved[OF f] find_filter_key)
  then show ?thesis
    by (simp add: written_pull_fields)
qed

theorem syncConnection_remote_wins_witness:
  "keys_ok ex_world3 \<and> fetch_reply ex_env3 ex_conn ex_world3 = Resolved [ex_item_x] \<and>
   ex_task \<in> set (tasks ex_world3) \<and> owned_by ex_conn ex_task \<and>
   source_id ex_task = JStr (r_source_id ex_item_x) \<and> completed ex_task = JNum 0 \<and>
   (\<exists>t'. dbGetTask 1 (snd (syncConnection ex_env3 ex_conn ex_world3)) = Some t' \<and>
         title t' = JStr ''Buy oat milk'' \<and> description t' = JStr ''Home'' \<and>
         completed t' = JNum 1 \<and> source_url t' = JStr ''https://n.example/p#x'')"
proof -
  have k: "keys_ok ex_world3"
    by (simp add: keys_ok_def ex_defs ex_defs2)
  have x: "ex_task \<in> set (tasks ex_world3)" "source ex_task = JStr ''notion''"
      "owned_by ex_conn ex_task"
    by (simp_all add: owned_by_def ex_defs ex_defs2)
  have r: "[ex_item_x] = [] @ ex_item_x # []" "source_id ex_task = JStr (r_source_id ex_item_x)"
    by (simp_all add: ex_defs ex_defs2)
  have l: "\<forall>r\<in>set []. r_source_id r \<noteq> r_source_id ex_item_x"
    by simp
  have u: "\<forall>u\<in>set (tasks ex_world3).
             source u = JStr ''notion'' \<and> source_id u = source_id ex_task \<longrightarrow> u = ex_task"
    by (simp add: ex_defs ex_defs2)
  have v: "t_id ex_task = 1" "completed ex_task = JNum 0" "r_title ex_item_x = ''Buy oat milk''"
      "r_description ex_item_x = ''Home''" "r_completed ex_item_x"
      "r_source_url ex_item_x = ''https://n.example/p#x''"
    by (simp_all add: ex_defs ex_defs2)
  from syncConnection_remote_wins[OF k ex_fetch_reply x u r l] k x(1,3) r(2) v ex_fetch_reply
  show ?thesis by simp
qed

subsection \<open>Push before pull\<close>

text \<open>
  Claim C5. The remote calls of one \<^verbatim>\<open>syncConnection\<close>, whether the fetch resolves
  or rejects: one \<^verbatim>\<open>notionUpdateTodoChecked\<close> for each local Notion task of the
  connection that has a \<^verbatim>\<open>source_id\<close>, in the order of \<^verbatim>\<open>dbGetAllTasks\<close>, and after all
  of them the single \<^verbatim>\<open>notionFetchTodos\<close>, which is the last call.
\<close>

theorem syncConnection_pushes_before_fetch:
  "calls (snd (syncConnection e conn w))
     = calls w @ map (push_of conn) (filter (owned_by conn) (notion_tasks w)) @ [fetch_of conn]
   \<and> \<not> is_fetch (push_of conn t) \<and> is_fetch (fetch_of conn)"
  by (simp add: syncConnection_calls fetch_of_def push_of_def)

theorem syncConnection_pushes_before_fetch_witness:
  "calls (snd (syncConnection ex_env ex_conn ex_world))
     = [UpdateTodoChecked ''secret'' (JStr ''x'') False, FetchTodos ''secret'' ''db1'']"
proof -
  have "notion_tasks ex_world = [ex_task]"
    by (simp add: notion_tasks_def dbGetAllTasks_def js_sort_def no_props_def ex_defs)
  then show ?thesis
    using syncConnection_pushes_before_fetch[of ex_env ex_conn ex_world]
    by (simp add: push_of_def owned_by_def fetch_of_def ex_defs)
qed

subsection \<open>One failing connection\<close>

text \<open>
  Claim C6. \<^verbatim>\<open>syncAllConnections\<close> resolves, whatever the remote side answers: its
  world is the one obtained by running \<^verbatim>\<open>syncConnection\<close> on every connection that
  is enabled and of type \<^verbatim>\<open>'notion'\<close>, one after the other in the order of the
  store, each outcome (result or rejection) written to the console; the other
  connections are skipped. Every such run reaches its fetch, so the fetches in the
  trace are those of the enabled Notion connections, in that order, also after a
  connection whose run rejected.
\<close>

theorem syncAll_isolates_failures:
  "syncAllConnections e w = (Inr (), fold (sync_logged e) (filter eligible (conns w)) w) \<and>
   filter is_fetch (calls (snd (syncAllConnections e w)))
     = filter is_fetch (calls w) @ map fetch_of (filter eligible (conns w))"
  by (simp add: syncAllConnections_def dbGetAllConnections_def for_each_sync_one
        fold_sync_logged_fetches)

theorem syncAll_isolates_failures_witness:
  "fst (syncAllConnections ex_env2 ex_world2) = Inr () \<and>
   filter is_fetch (calls (snd (syncAllConnections ex_env2 ex_world2)))
     = [FetchTodos ''secret'' ''db1'', FetchTodos ''secret2'' ''db2''] \<and>
   console (snd (syncAllConnections ex_env2 ex_world2))
     = [ConsoleError [JStr ''[Sync]'', JStr ''Inbox'', JStr ''failed:'', JStr ''HTTP 401''],
        ConsoleLog [JStr ''[Sync]'', JStr ''Work:'', JNum 1, JStr ''todos'']]"
proof -
  have c: "console (snd (syncAllConnections ex_env2 ex_world2))
     = [ConsoleError [JStr ''[Sync]'', JStr ''Inbox'', JStr ''failed:'', JStr ''HTTP 401''],
        ConsoleLog [JStr ''[Sync]'', JStr ''Work:'', JNum 1, JStr ''todos'']]"
    by (simp add: run_defs ex_defs)
  have el: "filter eligible (conns ex_world2) = [ex_conn, ex_conn2]"
    by (simp add: eligible_def ex_defs)
  have f: "map fetch_of [ex_conn, ex_conn2]
             = [FetchTodos ''secret'' ''db1'', FetchTodos ''secret2'' ''db2'']"
    by (simp add: fetch_of_def ex_conn_def ex_conn2_def)
  have k: "calls ex_world2 = []"
    by (simp add: ex_world2_def)
  note T = syncAll_isolates_failures[of ex_env2 ex_world2]
  have r: "fst (syncAllConnections ex_env2 ex_world2) = Inr ()"
    by (simp add: T[THEN conjunct1])
  have "filter is_fetch (calls (snd (syncAllConnections ex_env2 ex_world2)))
          = [FetchTodos ''secret'' ''db1'', FetchTodos ''secret2'' ''db2'']"
    using T[THEN conjunct2] by (simp only: el f k filter.simps append_Nil)
  with r c show ?thesis
    by (intro conjI)
qed

subsection \<open>Local tasks\<close>

lemma local_tasks_syncConnection:
  assumes "keys_ok w"
  shows "filter (\<lambda>t. source t = JStr ''local'') (tasks (snd (syncConnection e conn w)))
           = filter (\<lambda>t. source t = JStr ''local'') (tasks w)"
proof (cases "fetch_reply e conn w")
  case (Rejected msg)
  then show ?thesis by (simp add: tasks_syncConnection_rejected)
next
  case (Resolved todos)
  let ?local = "\<lambda>t. source t = JStr ''local''"
  let ?w3 = "snd (pulled e conn todos w)"
  have m: "mid conn todos w ?w3" using assms by (rule mid_pulled)
  then have "filter not_notion (tasks ?w3) = filter not_notion (tasks w)"
    by (simp add: mid_def)
  then have pull: "filter ?local (tasks ?w3) = filter ?local (tasks w)"
    using filter_local[of "tasks ?w3"] filter_local[of "tasks w"] by simp
  have "t_id t \<notin> orphan_keys conn todos w" if "t \<in> set (tasks w)" "source t = JStr ''local''" for t
    using orphan_keys_notion[OF assms that(1)] that(2) by auto
  then have "filter (\<lambda>u. t_id u \<notin> orphan_keys conn todos w) (filter ?local (tasks w))
               = filter ?local (tasks w)"
    by (auto intro: filter_cong)
  moreover have "filter ?local (filter (\<lambda>u. t_id u \<notin> orphan_keys conn todos w) (tasks ?w3))
      = filter (\<lambda>u. t_id u \<notin> orphan_keys conn todos w) (filter ?local (tasks ?w3))"
    by (auto intro: filter_cong)
  ultimately show ?thesis
    using Resolved pull by (simp only: tasks_syncConnection_resolved)
qed

text \<open>
  Claim C7. One \<^verbatim>\<open>syncConnection\<close>, for any connection and any answer of the remote
  side, leaves the tasks whose source is \<^verbatim>\<open>'local'\<close> exactly as they were: the list of
  these records in the store is the same before and after, so none is created or
  deleted, and each is read back under its key with every property unchanged. (The
  keys of the store are distinct and not above the key generator, as in every store:
  \<open>keys_ok\<close>.)
\<close>

theorem syncConnection_keeps_local_tasks:
  assumes "keys_ok w"
  shows "filter (\<lambda>t. source t = JStr ''local'') (tasks (snd (syncConnection e conn w)))
           = filter (\<lambda>t. source t = JStr ''local'') (tasks w) \<and>
         (\<forall>t\<in>set (tasks w). source t = JStr ''local'' \<longrightarrow>
            dbGetTask (t_id t) (snd (syncConnection e conn w)) = Some t)"
proof (intro conjI ballI impI)
  show same: "filter (\<lambda>t. source t = JStr ''local'') (tasks (snd (syncConnection e conn w)))
           = filter (\<lambda>t. source t = JStr ''local'') (tasks w)"
    using assms by (rule local_tasks_syncConnection)
  fix t assume t: "t \<in> set (tasks w)" "source t = JStr ''local''"
  then have "t \<in> set (filter (\<lambda>t. source t = JStr ''local'') (tasks w))"
    by simp
  then have "t \<in> set (tasks (snd (syncConnection e conn w)))"
    by (simp only: same[symmetric]) simp
  moreover have "distinct (map t_id (tasks (snd (syncConnection e conn w))))"
    using keys_ok_syncConnection[OF assms, of e conn] by (simp add: keys_ok_def)
  ultimately show "dbGetTask (t_id t) (snd (syncConnection e conn w)) = Some t"
    by (rule dbGetTask_member[rotated])
qed

theorem syncConnection_keeps_local_tasks_witness:
  "keys_ok ex_world3 \<and> ex_task_local \<in> set (tasks ex_world3) \<and>
   source ex_task_local = JStr ''local'' \<and>
   filter (\<lambda>t. source t = JStr ''local'') (tasks (snd (syncConnection ex_env3 ex_conn ex_world3)))
     = [ex_task_local] \<and>
   dbGetTask 3 (snd (syncConnection ex_env3 ex_conn ex_world3)) = Some ex_task_local"
proof -
  have k: "keys_ok ex_world3"
    by (simp add: keys_ok_def ex_defs ex_defs2)
  have l: "filter (\<lambda>t. source t = JStr ''local'') (tasks ex_world3) = [ex_task_local]"
    by (simp add: ex_defs ex_defs2)
  have m: "ex_task_local \<in> set (tasks ex_world3)" "source ex_task_local = JStr ''local''"
      "t_id ex_task_local = 3"
    by (simp_all add: ex_defs ex_defs2)
  note T = syncConnection_keeps_local_tasks[OF k, of ex_env3 ex_conn]
  from T[THEN conjunct2, rule_format, OF m(1,2)] T[THEN conjunct1] k l m show ?thesis
    by simp
qed

subsection \<open>The eager push\<close>

text \<open>
  Claim C8. \<^verbatim>\<open>pushTaskToNotion\<close> resolves for every task, every \<^verbatim>\<open>updates\<close>
  argument and every behaviour of the remote side, and it leaves the tasks and the
  connections of the local store as they were: a rejected push only adds a line to the
  console.
\<close>

theorem pushTaskToNotion_never_rejects:
  "fst (pushTaskToNotion e t updates w) = Inr () \<and>
   tasks (snd (pushTaskToNotion e t updates w)) = tasks w \<and>
   conns (snd (pushTaskToNotion e t updates w)) = conns w"
proof (cases "source t \<noteq> JStr ''notion'' \<or> \<not> truthy (source_id t)")
  case True
  then show ?thesis by (auto simp: pushTaskToNotion_def)
next
  case False
  show ?thesis
  proof (cases "find (\<lambda>c. JNum (int (c_id c)) = connection_id t \<and> truthy (enabled c))
                  (dbGetAllConnections w)")
    case None
    with False show ?thesis by (simp add: pushTaskToNotion_def)
  next
    case (Some conn)
    obtain r w' where p: "push_updates e (token conn) t updates w = (r, w')"
      by (cases "push_updates e (token conn) t updates w")
    have "tasks w' = tasks w \<and> conns w' = conns w"
      using push_updates_world[of e "token conn" t updates w] p by simp
    with False Some p show ?thesis
      by (cases r) (simp_all add: pushTaskToNotion_def log_line_def)
  qed
qed

theorem pushTaskToNotion_never_rejects_witness:
  "fst (pushTaskToNotion ex_env ex_task (no_props(''completed'' := JBool True)) ex_world) = Inr () \<and>
   calls (snd (pushTaskToNotion ex_env ex_task (no_props(''completed'' := JBool True)) ex_world))
     = [UpdateTodoChecked ''secret'' (JStr ''x'') True] \<and>
   console (snd (pushTaskToNotion ex_env ex_task (no_props(''completed'' := JBool True)) ex_world))
     = [ConsoleError [JStr ''[Notion push]'', JStr ''HTTP 500'']]"
proof -
  have "calls (snd (pushTaskToNotion ex_env ex_task (no_props(''completed'' := JBool True)) ex_world))
     = [UpdateTodoChecked ''secret'' (JStr ''x'') True] \<and>
   console (snd (pushTaskToNotion ex_env ex_task (no_props(''completed'' := JBool True)) ex_world))
     = [ConsoleError [JStr ''[Notion push]'', JStr ''HTTP 500'']]"
    by (simp add: run_defs ex_defs)
  then show ?thesis
    using pushTaskToNotion_never_rejects[of ex_env ex_task "no_props(''completed'' := JBool True)" ex_world]
    by simp
qed

subsection \<open>Remote identifier and connection\<close>

text \<open>
  Claim C9. In every world the program reaches (the task form, the edit form, the
  completion toggle, deletion, saving and deleting a connection, a sync by button or
  by timer, in any order and on any input), with a remote side whose to-dos have
  non-empty block ids, every stored task has \<^verbatim>\<open>source_id\<close> and \<^verbatim>\<open>connection_id\<close> both
  \<^verbatim>\<open>null\<close> or both set, and has a \<^verbatim>\<open>source_id\<close> exactly when its source is not
  \<^verbatim>\<open>'local'\<close>. Each handler preserves this (\<open>store_ok\<close>, in the lemmas above).
\<close>

theorem stored_tasks_linked:
  assumes "block_ids_present e" and "reachable e w" and "t \<in> set (tasks w)"
  shows "(source_id t = JNull \<longleftrightarrow> connection_id t = JNull) \<and>
         (source_id t \<noteq> JNull \<longleftrightarrow> source t \<noteq> JStr ''local'')"
proof -
  from reachable_store_ok[OF assms(1,2)] assms(3) have "task_ok t"
    by (simp add: store_ok_def)
  then show ?thesis
    by (auto simp: task_ok_def)
qed

theorem stored_tasks_linked_witness:
  "block_ids_present ex_env3 \<and> reachable ex_env3 ex_reached \<and>
   map source (tasks ex_reached) = [JStr ''notion'', JStr ''local''] \<and>
   map source_id (tasks ex_reached) = [JStr ''x'', JNull] \<and>
   map connection_id (tasks ex_reached) = [JNum 1, JNull]"
proof -
  have b: "block_ids_present ex_env3"
    by (auto simp: block_ids_present_def ex_env3_def ex_item_x_def split: call.splits)
  have s: "conns ex_saved = [ex_saved_conn]"
    by (simp add: ex_saved_def ex_saved_conn_def clickSaveConnection_def dbCreateConnection_def
          localNow_def empty_world_def ex_env3_def Let_def)
  have "reachable ex_env3 ex_saved"
    unfolding ex_saved_def by (intro reachable.save_connection reachable.start)
  then have "reachable ex_env3 (clickSync ex_env3 ex_saved_conn ex_saved)"
    using s by (intro reachable.sync[of ex_env3 ex_saved]) simp_all
  then have r: "reachable ex_env3 ex_reached"
    unfolding ex_reached_def by (rule reachable.submit_task)
  have t: "tasks ex_reached =
      [\<lparr> t_id = 1, title = JStr ''Buy oat milk'', description = JStr ''Home'',
          completed = JNum 1, due_date = JNull, source = JStr ''notion'',
          source_id = JStr ''x'', source_url = JStr ''https://n.example/p#x'',
          connection_id = JNum 1, created_at = 101, updated_at = 101 \<rparr>,
       \<lparr> t_id = 2, title = JStr ''Water plants'', description = JStr [],
          completed = JNum 0, due_date = JNull, source = JStr ''local'',
          source_id = JNull, source_url = JNull, connection_id = JNull,
          created_at = 103, updated_at = 103 \<rparr>]"
    by (simp add: ex_reached_def ex_saved_def ex_saved_conn_def clickSaveConnection_def
          dbCreateConnection_def empty_world_def submitTaskForm_def form_body_def clickSync_def
          run_defs ex_env3_def ex_item_x_def)
  have "hd (tasks ex_reached) \<in> set (tasks ex_reached)"
    by (simp add: t)
  from stored_tasks_linked[OF b r this] b r t show ?thesis
    by simp
qed

subsection \<open>The writes of dbUpdateTask\<close>

text \<open>
  Claim C10. \<^verbatim>\<open>dbUpdateTask(id, fields)\<close>, whatever properties \<^verbatim>\<open>fields\<close> has: when no
  task is stored under \<^verbatim>\<open>id\<close> it returns \<^verbatim>\<open>null\<close> and changes nothing; otherwise the
  task it returns is the one stored under \<^verbatim>\<open>id\<close> afterwards, with the same \<^verbatim>\<open>id\<close>,
  \<^verbatim>\<open>source\<close>, \<^verbatim>\<open>source_id\<close>, \<^verbatim>\<open>connection_id\<close> and \<^verbatim>\<open>created_at\<close> as before, and its
  \<^verbatim>\<open>completed\<close> is 1 or 0 by the truthiness of \<^verbatim>\<open>fields.completed\<close> when that is given
  and the stored value otherwise. The records under every other key are untouched.
\<close>

theorem dbUpdateTask_writes_allowed_only:
  "(dbGetTask i w = None \<longrightarrow> dbUpdateTask e i flds w = (None, w)) \<and>
   (\<forall>t. dbGetTask i w = Some t \<longrightarrow>
      (\<exists>t'. fst (dbUpdateTask e i flds w) = Some t' \<and>
            dbGetTask i (snd (dbUpdateTask e i flds w)) = Some t' \<and>
            t_id t' = t_id t \<and> source t' = source t \<and> source_id t' = source_id t \<and>
            connection_id t' = connection_id t \<and> created_at t' = created_at t \<and>
            completed t' = (if flds ''completed'' = JUndefined then completed t
                            else if truthy (flds ''completed'') then JNum 1 else JNum 0))) \<and>
   (\<forall>j. j \<noteq> i \<longrightarrow> dbGetTask j (snd (dbUpdateTask e i flds w)) = dbGetTask j w)"
proof (intro conjI allI impI)
  assume "dbGetTask i w = None"
  then show "dbUpdateTask e i flds w = (None, w)"
    by (simp add: dbUpdateTask_def)
next
  fix t
  assume g: "dbGetTask i w = Some t"
  define t' where "t' = (fold (update_field flds) allowed t)\<lparr>updated_at := clock e (ticks w)\<rparr>"
  have i: "t_id t = i" using g by (rule dbGetTask_id)
  have u: "dbUpdateTask e i flds w
             = (Some t', w\<lparr>ticks := Suc (ticks w), tasks := idb_put t' (tasks w)\<rparr>)"
    using g by (simp add: dbUpdateTask_def localNow_def t'_def Let_def)
  have id': "t_id t' = i"
    using i by (simp add: t'_def fold_update_field_frame)
  have stored: "dbGetTask i (snd (dbUpdateTask e i flds w)) = Some t'"
    using g id' by (simp add: u dbGetTask_def find_idb_put_same)
  have frame: "t_id t' = t_id t \<and> source t' = source t \<and> source_id t' = source_id t \<and>
      connection_id t' = connection_id t \<and> created_at t' = created_at t"
    by (simp add: t'_def fold_update_field_frame)
  have norm: "completed t' = (if flds ''completed'' = JUndefined then completed t
                            else if truthy (flds ''completed'') then JNum 1 else JNum 0)"
    by (simp add: t'_def fold_update_field_completed flag_def)
  show "\<exists>t'. fst (dbUpdateTask e i flds w) = Some t' \<and>
            dbGetTask i (snd (dbUpdateTask e i flds w)) = Some t' \<and>
            t_id t' = t_id t \<and> source t' = source t \<and> source_id t' = source_id t \<and>
            connection_id t' = connection_id t \<and> created_at t' = created_at t \<and>
            completed t' = (if flds ''completed'' = JUndefined then completed t
                            else if truthy (flds ''completed'') then JNum 1 else JNum 0)"
    using u stored frame norm by (intro exI[of _ t']) simp
next
  fix j
  assume ne: "j \<noteq> i"
  show "dbGetTask j (snd (dbUpdateTask e i flds w)) = dbGetTask j w"
  proof (cases "dbGetTask i w")
    case None
    then show ?thesis by (simp add: dbUpdateTask_def)
  next
    case (Some t)
    then have "t_id t = i" by (rule dbGetTask_id)
    with Some ne show ?thesis
      by (simp add: dbUpdateTask_def localNow_def dbGetTask_def find_idb_put_other
            fold_update_field_frame Let_def)
  qed
qed

theorem dbUpdateTask_writes_allowed_only_witness:
  "dbGetTask 1 ex_world = Some ex_task \<and>
   (\<exists>t'. fst (dbUpdateTask ex_env 1 ex_fields ex_world) = Some t' \<and>
         dbGetTask 1 (snd (dbUpdateTask ex_env 1 ex_fields ex_world)) = Some t' \<and>
         t_id t' = 1 \<and> source t' = JStr ''notion'' \<and> source_id t' = JStr ''x'' \<and>
         connection_id t' = JNum 1 \<and> created_at t' = 10 \<and> completed t' = JNum 1)"
proof -
  have g: "dbGetTask 1 ex_world = Some ex_task"
    by (simp add: dbGetTask_def ex_world_def ex_task_def)
  have c: "ex_fields ''completed'' = JStr ''yes''"
    by (simp add: ex_fields_def)
  show ?thesis
    using g c dbUpdateTask_writes_allowed_only[of 1 ex_world ex_env ex_fields]
    by (simp add: ex_task_def)
qed

end
